theory Spec2Isabelle
  imports Complex_Main
begin

section \<open>PETS on the continuous cartpole: the notebook and the pieces it drives\<close>

text \<open>
  The repository file is the notebook \<^verbatim>\<open>notebooks/pets_example.ipynb\<close>. Its code cells
  build an environment, a dynamics model, a replay buffer and a CEM agent out of library
  calls, fill the buffer with a random exploration rollout and then run the main PETS
  loop. The main loop is the only control flow of the file; it is embedded below
  statement by statement. The library objects it drives (replay buffer, trainer,
  optimizer) are not part of the file: they are either parameters of the embedding or,
  where a property needs their behaviour, definitions modelled from the specification
  and marked as such.

  Floating-point numbers of the notebook (rewards, losses, scores, ratios) are read as
  exact reals.
\<close>

subsection \<open>Transitions and the transition buffer\<close>

text \<open>
  \<^verbatim>\<open>replay_buffer.add(obs, action, next_obs, reward, done)\<close> records one transition.
\<close>

record ('obs, 'act) transition =
  tr_obs :: 'obs
  tr_act :: 'act
  tr_next_obs :: 'obs
  tr_reward :: real
  tr_done :: bool

text \<open>
  Modelled from the spec: the Transition Buffer (the library class behind
  \<^verbatim>\<open>common_util.create_replay_buffer\<close>, whose source is not in the notebook). The spec
  describes an ordered, fixed-capacity ring of transitions in which \<open>add\<close> appends in
  constant time and overwrites the oldest entry when the buffer is at capacity. The ring
  is a fixed array of \<open>capacity\<close> slots with a write cursor \<open>cur_idx\<close>; \<open>num_stored\<close> is
  the spec's \<open>count_stored\<close>.
\<close>

record 'a ReplayBuffer =
  capacity :: nat
  storage :: "'a option list"
  cur_idx :: nat
  num_stored :: nat

definition create_replay_buffer :: "nat \<Rightarrow> 'a ReplayBuffer" where
  "create_replay_buffer cap =
     \<lparr>capacity = cap, storage = replicate cap None, cur_idx = 0, num_stored = 0\<rparr>"

text \<open>
  A ring without slots cannot hold an entry: the spec's invariant
  \<open>count_stored \<le> capacity\<close> leaves \<open>add\<close> nothing to do there.
\<close>

definition add :: "'a ReplayBuffer \<Rightarrow> 'a \<Rightarrow> 'a ReplayBuffer" where
  "add b t =
     (if capacity b = 0 then b
      else b\<lparr>storage := (storage b)[cur_idx b := Some t],
             cur_idx := (cur_idx b + 1) mod capacity b,
             num_stored := min (num_stored b + 1) (capacity b)\<rparr>)"

text \<open>
  The stored transitions, oldest first. While the ring is not full they are the slots
  before the cursor; once it is full the oldest entry is the one under the cursor.
\<close>

definition slots_in_order :: "'a ReplayBuffer \<Rightarrow> 'a option list" where
  "slots_in_order b =
     (if num_stored b < capacity b then take (num_stored b) (storage b)
      else drop (cur_idx b) (storage b) @ take (cur_idx b) (storage b))"

definition get_all :: "'a ReplayBuffer \<Rightarrow> 'a list" where
  "get_all b = List.map_filter (\<lambda>s. s) (slots_in_order b)"

definition add_all :: "'a ReplayBuffer \<Rightarrow> 'a list \<Rightarrow> 'a ReplayBuffer" where
  "add_all b ts = foldl add b ts"


subsection \<open>The library objects the notebook drives\<close>

text \<open>
  The real environment, the agent and the dynamics model are objects of the library;
  the notebook only calls their methods. Their states are the type parameters \<open>'e\<close>
  (environment, including the random state behind \<^verbatim>\<open>env.action_space.sample()\<close>),
  \<open>'g\<close> (agent) and \<open>'m\<close> (dynamics model); their methods are the fields below. The
  planner of the agent reads the dynamics model that the trainer updates (the notebook
  hands the same \<^verbatim>\<open>dynamics_model\<close> object to \<^verbatim>\<open>ModelEnv\<close> and to
  \<^verbatim>\<open>ModelTrainer\<close>), so \<open>agent_act\<close> takes the current model. The environment is taken
  to answer every call: a failing \<^verbatim>\<open>env.step\<close> is outside this embedding.
\<close>

record ('e, 'g, 'm, 'obs, 'act) library =
  env_reset :: "'e \<Rightarrow> 'obs \<times> 'e"
  env_step :: "'e \<Rightarrow> 'act \<Rightarrow> ('obs \<times> real \<times> bool) \<times> 'e"
  random_act :: "'e \<Rightarrow> 'obs \<Rightarrow> 'act \<times> 'e"
  agent_reset :: "'g \<Rightarrow> 'g"
  agent_act :: "'m \<Rightarrow> 'g \<Rightarrow> 'obs \<Rightarrow> 'act \<times> 'g"
  update_normalizer :: "'m \<Rightarrow> ('obs, 'act) transition list \<Rightarrow> 'm"
  split_train_val :: "real \<Rightarrow> ('obs, 'act) transition list
                      \<Rightarrow> ('obs, 'act) transition list \<times> ('obs, 'act) transition list"
  fit_epoch :: "'m \<Rightarrow> ('obs, 'act) transition list \<times> nat \<Rightarrow> 'm \<times> real"
  evaluate :: "'m \<Rightarrow> ('obs, 'act) transition list \<times> nat \<Rightarrow> real list"
  improved :: "real list \<Rightarrow> real list \<Rightarrow> bool"

text \<open>
  The constants of the notebook (cell 6 and the literal arguments of cell 21).
\<close>

record config =
  trial_length :: nat
  num_trials :: nat
  model_batch_size :: nat
  validation_ratio :: real
  num_epochs :: nat
  patience :: nat

definition notebook_config :: config where
  "notebook_config =
     \<lparr>trial_length = 200, num_trials = 10, model_batch_size = 32,
      validation_ratio = 5 / 100, num_epochs = 50, patience = 50\<rparr>"

datatype error = EmptyBufferError

text \<open>
  The calls the program makes on library objects, in program order. The log is a ghost
  field of the program state: no statement of the notebook reads it.
\<close>

datatype ('obs, 'act) call =
    EnvReset
  | AgentReset
  | UpdateNormalizer "('obs, 'act) transition list"
  | GetBufferIterators nat
  | TrainEpoch nat
  | TrainCallback nat
  | StepEnv "('obs, 'act) transition"

record ('e, 'g, 'm, 'obs, 'act) pets_state =
  env :: 'e
  agent :: 'g
  dynamics_model :: 'm
  replay_buffer :: "('obs, 'act) transition ReplayBuffer"
  train_losses :: "real list"
  val_scores :: "real list"
  all_rewards :: "real list"
  calls :: "('obs, 'act) call list"

subsection \<open>Cell 13: initial exploration\<close>

text \<open>
  Modelled from the notebook's text and output, the spec being silent on it: the library
  function \<^verbatim>\<open>rollout_agent_trajectories\<close> (not part of the file). Its second argument is
  commented \<^verbatim>\<open>initial exploration steps\<close>, the agent is \<^verbatim>\<open>planning.RandomAgent(env)\<close>
  and the cell prints \<^verbatim>\<open># samples stored 200\<close>. The call takes exactly
  \<open>steps\<close> environment steps with randomly drawn actions and adds every transition to
  the buffer; the environment is reset at the start and whenever an episode has ended
  (the environment reported termination, or \<open>trial_length\<close> steps were taken in it).
\<close>

fun rollout_steps ::
  "('e, 'g, 'm, 'obs, 'act) library \<Rightarrow> nat \<Rightarrow> nat \<Rightarrow> nat \<Rightarrow> 'obs \<Rightarrow>
   'e \<times> ('obs, 'act) transition ReplayBuffer \<times> ('obs, 'act) call list \<Rightarrow>
   'e \<times> ('obs, 'act) transition ReplayBuffer \<times> ('obs, 'act) call list" where
  "rollout_steps lib ep_len 0 in_episode obs (e, rb, cs) = (e, rb, cs)"
| "rollout_steps lib ep_len (Suc n) in_episode obs (e, rb, cs) =
     (let (action, e1) = random_act lib e obs;
          ((next_obs, reward, done), e2) = env_step lib e1 action;
          tr = \<lparr>tr_obs = obs, tr_act = action, tr_next_obs = next_obs,
                tr_reward = reward, tr_done = done\<rparr>;
          rb' = add rb tr;
          cs' = cs @ [StepEnv tr]
      in if n = 0 then (e2, rb', cs')
         else if done \<or> in_episode + 1 = ep_len then
           (let (obs0, e3) = env_reset lib e2
            in rollout_steps lib ep_len n 0 obs0 (e3, rb', cs' @ [EnvReset]))
         else rollout_steps lib ep_len n (in_episode + 1) next_obs (e2, rb', cs'))"

definition rollout_agent_trajectories ::
  "('e, 'g, 'm, 'obs, 'act) library \<Rightarrow> nat \<Rightarrow> nat \<Rightarrow>
   'e \<times> ('obs, 'act) transition ReplayBuffer \<Rightarrow>
   'e \<times> ('obs, 'act) transition ReplayBuffer \<times> ('obs, 'act) call list" where
  "rollout_agent_trajectories lib steps ep_len x =
     (case x of (e, rb) \<Rightarrow>
        if steps = 0 then (e, rb, [])
        else (let (obs0, e1) = env_reset lib e
              in rollout_steps lib ep_len steps 0 obs0 (e1, rb, [EnvReset])))"


subsection \<open>Cell 18: the training callback\<close>

text \<open>
  \<^verbatim>\<open>def train_callback(_model, _total_calls, _epoch, tr_loss, val_score, _best_val):\<close>
  \<^verbatim>\<open>    train_losses.append(tr_loss)\<close>
  \<^verbatim>\<open>    val_scores.append(val_score.mean().item())\<close>
  The two lists are globals of the notebook; here they are the pair the callback
  updates. The first two parameters (the model and the trainer's running call count)
  are ignored by the body and left out; the validation score holds one entry per
  ensemble member, so its list is never empty (on the empty list the quotient below
  would be 0, where the library's mean is not a number).
\<close>

definition mean_score :: "real list \<Rightarrow> real" where
  "mean_score xs = sum_list xs / real (length xs)"

definition train_callback ::
  "nat \<Rightarrow> real \<Rightarrow> real list \<Rightarrow> real list \<Rightarrow> real list \<times> real list \<Rightarrow> real list \<times> real list" where
  "train_callback epoch tr_loss val_score best_val acc =
     (fst acc @ [tr_loss], snd acc @ [mean_score val_score])"

subsection \<open>Batch iterators and the model trainer\<close>

text \<open>
  Modelled from the spec: \<open>sample_batches\<close> (the library function
  \<^verbatim>\<open>get_basic_buffer_iterators\<close>, not part of the file). It fails with
  \<open>EmptyBufferError\<close> when nothing is stored; otherwise it partitions the stored
  transitions into a training and a validation set and returns one batch iterator for
  each. Which transitions go where is drawn at random in the library and is the
  parameter \<open>split_train_val\<close>; an iterator is its data with the batch size.
\<close>

definition get_basic_buffer_iterators ::
  "('e, 'g, 'm, 'obs, 'act) library \<Rightarrow> ('obs, 'act) transition ReplayBuffer \<Rightarrow> nat \<Rightarrow> real \<Rightarrow>
   error + (('obs, 'act) transition list \<times> nat) \<times> (('obs, 'act) transition list \<times> nat)" where
  "get_basic_buffer_iterators lib rb batch_size val_ratio =
     (if num_stored rb = 0 then Inl EmptyBufferError
      else (case split_train_val lib val_ratio (get_all rb) of
              (train_data, val_data) \<Rightarrow> Inr ((train_data, batch_size), (val_data, batch_size))))"

text \<open>
  Modelled from the spec: the trainer behind \<^verbatim>\<open>model_trainer.train\<close> (library code,
  not part of the file). It retrains the model for up to \<open>num_epochs\<close> epochs or until
  \<open>patience\<close> epochs have passed without an improvement of the validation score, and
  invokes the callback after every epoch with the epoch index, the training loss, the
  validation score and the best validation score so far. One epoch of fitting, the
  evaluation on the validation set and the comparison of two scores are the library
  parameters \<open>fit_epoch\<close>, \<open>evaluate\<close> and \<open>improved\<close>. The first epoch's score is the
  first best score. The state is the model, the best score, the number of epochs since
  the last improvement, the callback's accumulator and the call log.
\<close>

fun train_epochs ::
  "('e, 'g, 'm, 'obs, 'act) library \<Rightarrow> (nat \<Rightarrow> real \<Rightarrow> real list \<Rightarrow> real list \<Rightarrow> 'c \<Rightarrow> 'c) \<Rightarrow>
   ('obs, 'act) transition list \<times> nat \<Rightarrow> ('obs, 'act) transition list \<times> nat \<Rightarrow> nat \<Rightarrow>
   nat \<Rightarrow> nat \<Rightarrow> 'm \<times> real list option \<times> nat \<times> 'c \<times> ('obs, 'act) call list \<Rightarrow>
   'm \<times> real list option \<times> nat \<times> 'c \<times> ('obs, 'act) call list" where
  "train_epochs lib callback dataset_train dataset_val pat 0 epoch x = x"
| "train_epochs lib callback dataset_train dataset_val pat (Suc n) epoch (m, best, since, acc, cs) =
     (let (m', tr_loss) = fit_epoch lib m dataset_train;
          val_score = evaluate lib m' dataset_val;
          better = (case best of None \<Rightarrow> True | Some b \<Rightarrow> improved lib b val_score);
          best' = (case best of None \<Rightarrow> val_score
                   | Some b \<Rightarrow> if better then val_score else b);
          since' = (if better then 0 else since + 1);
          acc' = callback epoch tr_loss val_score best' acc;
          cs' = cs @ [TrainEpoch epoch, TrainCallback epoch]
      in if pat \<le> since' then (m', Some best', since', acc', cs')
         else train_epochs lib callback dataset_train dataset_val pat n (epoch + 1)
                (m', Some best', since', acc', cs'))"

definition model_trainer_train ::
  "('e, 'g, 'm, 'obs, 'act) library \<Rightarrow> (nat \<Rightarrow> real \<Rightarrow> real list \<Rightarrow> real list \<Rightarrow> 'c \<Rightarrow> 'c) \<Rightarrow>
   ('obs, 'act) transition list \<times> nat \<Rightarrow> ('obs, 'act) transition list \<times> nat \<Rightarrow> nat \<Rightarrow> nat \<Rightarrow>
   'm \<times> 'c \<times> ('obs, 'act) call list \<Rightarrow> 'm \<times> 'c \<times> ('obs, 'act) call list" where
  "model_trainer_train lib callback dataset_train dataset_val n_epochs pat x =
     (case x of (m, acc, cs) \<Rightarrow>
        (case train_epochs lib callback dataset_train dataset_val pat n_epochs 0
                (m, None, 0, acc, cs) of
           (m', best, since, acc', cs') \<Rightarrow> (m', acc', cs')))"

subsection \<open>Cell 21: the main PETS loop\<close>

text \<open>
  The block under \<^verbatim>\<open>if steps_trial == 0:\<close>
  \<^verbatim>\<open>    dynamics_model.update_normalizer(replay_buffer.get_all())\<close>
  \<^verbatim>\<open>    dataset_train, dataset_val = common_util.get_basic_buffer_iterators(replay_buffer, ...)\<close>
  \<^verbatim>\<open>    model_trainer.train(dataset_train, dataset_val=dataset_val, num_epochs=50,\<close>
  \<^verbatim>\<open>                        patience=50, callback=train_callback, silent=True)\<close>
  refits the normalizer on all buffer contents, builds the two iterators and trains with
  the callback of cell 18. The trainer object of cell 21 wraps the dynamics model; what
  it keeps of its own (the optimizer) is part of the model state \<open>'m\<close>. The remaining
  arguments of the iterator call (ensemble size, shuffling, bootstrap) only reach the
  parameters \<open>split_train_val\<close> and \<open>fit_epoch\<close>.
\<close>

definition model_training ::
  "('e, 'g, 'm, 'obs, 'act) library \<Rightarrow> config \<Rightarrow> ('e, 'g, 'm, 'obs, 'act) pets_state \<Rightarrow>
   error + ('e, 'g, 'm, 'obs, 'act) pets_state" where
  "model_training lib cfg st =
     (let all_data = get_all (replay_buffer st);
          st1 = st\<lparr>dynamics_model := update_normalizer lib (dynamics_model st) all_data,
                   calls := calls st @ [UpdateNormalizer all_data]\<rparr>
      in case get_basic_buffer_iterators lib (replay_buffer st1)
                (model_batch_size cfg) (validation_ratio cfg) of
           Inl err \<Rightarrow> Inl err
         | Inr (dataset_train, dataset_val) \<Rightarrow>
             (case model_trainer_train lib train_callback dataset_train dataset_val
                     (num_epochs cfg) (patience cfg)
                     (dynamics_model st1, (train_losses st1, val_scores st1),
                      calls st1 @ [GetBufferIterators (num_stored (replay_buffer st1))]) of
                (m, acc, cs) \<Rightarrow>
                  Inr (st1\<lparr>dynamics_model := m, train_losses := fst acc,
                           val_scores := snd acc, calls := cs\<rparr>)))"

text \<open>
  Modelled from the spec: \<^verbatim>\<open>common_util.step_env_and_add_to_buffer\<close> (library code, not
  part of the file). The agent chooses an action for the current observation, the
  action is executed in the real environment and the resulting transition is recorded
  in the buffer.
\<close>

definition step_env_and_add_to_buffer ::
  "('e, 'g, 'm, 'obs, 'act) library \<Rightarrow> 'obs \<Rightarrow> ('e, 'g, 'm, 'obs, 'act) pets_state \<Rightarrow>
   ('obs \<times> real \<times> bool) \<times> ('e, 'g, 'm, 'obs, 'act) pets_state" where
  "step_env_and_add_to_buffer lib obs st =
     (case agent_act lib (dynamics_model st) (agent st) obs of
        (action, g) \<Rightarrow>
          (case env_step lib (env st) action of
             ((next_obs, reward, done), e) \<Rightarrow>
               (let tr = \<lparr>tr_obs = obs, tr_act = action, tr_next_obs = next_obs,
                          tr_reward = reward, tr_done = done\<rparr>
                in ((next_obs, reward, done),
                    st\<lparr>env := e, agent := g,
                       replay_buffer := add (replay_buffer st) tr,
                       calls := calls st @ [StepEnv tr]\<rparr>))))"

text \<open>
  The \<^verbatim>\<open>while not done:\<close> loop of one trial, with its variables \<open>obs\<close>, \<open>done\<close>,
  \<open>total_reward\<close> and \<open>steps_trial\<close>. The loop need not end (an environment that never
  reports termination, with a step counter that has passed \<open>trial_length\<close>), so the
  result is an option and \<open>None\<close> stands for a loop that runs forever. The calls of
  \<^verbatim>\<open>update_axes\<close> only draw and are left out.
\<close>

partial_function (option) trial_loop ::
  "('e, 'g, 'm, 'obs, 'act) library \<Rightarrow> config \<Rightarrow>
   ('e, 'g, 'm, 'obs, 'act) pets_state \<times> 'obs \<times> bool \<times> real \<times> nat \<Rightarrow>
   (error + ('e, 'g, 'm, 'obs, 'act) pets_state \<times> real \<times> nat) option" where
  "trial_loop lib cfg x =
     (case x of (st, obs, done, total_reward, steps_trial) \<Rightarrow>
        if done then Some (Inr (st, total_reward, steps_trial))
        else
          (case (if steps_trial = 0 then model_training lib cfg st else Inr st) of
             Inl err \<Rightarrow> Some (Inl err)
           | Inr st1 \<Rightarrow>
               (case step_env_and_add_to_buffer lib obs st1 of
                  ((next_obs, reward, done'), st2) \<Rightarrow>
                    if steps_trial + 1 = trial_length cfg
                    then Some (Inr (st2, total_reward + reward, steps_trial + 1))
                    else trial_loop lib cfg
                           (st2, next_obs, done', total_reward + reward, steps_trial + 1))))"

declare trial_loop.simps [code]

text \<open>
  \<^verbatim>\<open>for trial in range(num_trials):\<close> reset the environment and the agent, run the
  trial, append its reward to \<open>all_rewards\<close>.
\<close>

fun main_loop ::
  "('e, 'g, 'm, 'obs, 'act) library \<Rightarrow> config \<Rightarrow> nat list \<Rightarrow>
   ('e, 'g, 'm, 'obs, 'act) pets_state \<Rightarrow> (error + ('e, 'g, 'm, 'obs, 'act) pets_state) option" where
  "main_loop lib cfg [] st = Some (Inr st)"
| "main_loop lib cfg (trial # trials) st =
     (case env_reset lib (env st) of
        (obs, e) \<Rightarrow>
          (let st1 = st\<lparr>env := e, agent := agent_reset lib (agent st),
                       calls := calls st @ [EnvReset, AgentReset]\<rparr>
           in case trial_loop lib cfg (st1, obs, False, 0, 0) of
                None \<Rightarrow> None
              | Some (Inl err) \<Rightarrow> Some (Inl err)
              | Some (Inr (st2, total_reward, steps_trial)) \<Rightarrow>
                  main_loop lib cfg trials
                    (st2\<lparr>all_rewards := all_rewards st2 @ [total_reward]\<rparr>)))"

text \<open>
  The notebook from the creation of the replay buffer (cell 11) to the end of the main
  loop (cell 21). The capacity of the buffer is decided inside
  \<^verbatim>\<open>create_replay_buffer\<close> and is a parameter here; \<open>e0\<close>, \<open>g0\<close> and \<open>m0\<close> are the
  environment of cell 4, the agent of cell 15 and the dynamics model of cell 9. Building
  the agent (cell 15, between the exploration and the main loop) touches neither the
  environment nor the buffer.
\<close>

definition pets_example ::
  "('e, 'g, 'm, 'obs, 'act) library \<Rightarrow> config \<Rightarrow> nat \<Rightarrow> 'e \<Rightarrow> 'g \<Rightarrow> 'm \<Rightarrow>
   (error + ('e, 'g, 'm, 'obs, 'act) pets_state) option" where
  "pets_example lib cfg cap e0 g0 m0 =
     (case rollout_agent_trajectories lib (trial_length cfg) (trial_length cfg)
             (e0, create_replay_buffer cap) of
        (e1, rb, cs) \<Rightarrow>
          main_loop lib cfg [0..<num_trials cfg]
            \<lparr>env = e1, agent = g0, dynamics_model = m0, replay_buffer = rb,
             train_losses = [], val_scores = [], all_rewards = [0], calls = cs\<rparr>)"


subsection \<open>The trajectory optimizer agent and its warm start\<close>

text \<open>
  Modelled from the spec: the agent behind \<^verbatim>\<open>planning.TrajectoryOptimizerAgent\<close>
  (library code, not part of the file; cell 15 only writes its configuration). The
  notebook's text before cell 21 describes the behaviour modelled here: resetting the
  agent clears \<^emph>\<open>the previous action sequence found, which is shifted at every call to
  obtain an initial solution for the optimizer\<close>. The spec adds that the sequence is
  shifted left by one step, the last entry being duplicated or reset to a default, and
  that with \<open>replan_freq > 1\<close> a planned sequence is reused for that many steps.

  The search itself (the CEM iterations on the simulated environment) is the parameter
  \<open>opt\<close>: it takes the dynamics model, the observation, the initial mean and the
  random generator and returns the best sequence and the generator. \<open>plan_log\<close> is a
  ghost field that records, for every planning call, the initial mean and the result,
  and every reset.
\<close>

record 'act agent_config =
  planning_horizon :: nat
  replan_freq :: nat
  default_action :: 'act
  duplicate_last :: bool

datatype 'act plan_event = Planned "'act list" "'act list" | WarmStartCleared

record ('act, 'r) agent_state =
  previous_solution :: "'act list option"
  actions_to_use :: "'act list"
  generator :: 'r
  plan_log :: "'act plan_event list"

fun shift_left :: "'act \<Rightarrow> bool \<Rightarrow> 'act list \<Rightarrow> 'act list" where
  "shift_left d dup [] = []"
| "shift_left d dup (a # as) = as @ [if dup then last (a # as) else d]"

definition warm_start :: "'act agent_config \<Rightarrow> 'act list option \<Rightarrow> 'act list" where
  "warm_start cfg prev =
     (case prev of
        None \<Rightarrow> replicate (planning_horizon cfg) (default_action cfg)
      | Some best \<Rightarrow> shift_left (default_action cfg) (duplicate_last cfg) best)"

definition plan ::
  "'act agent_config \<Rightarrow> ('m \<Rightarrow> 'obs \<Rightarrow> 'act list \<Rightarrow> 'r \<Rightarrow> 'act list \<times> 'r) \<Rightarrow>
   'm \<Rightarrow> 'obs \<Rightarrow> ('act, 'r) agent_state \<Rightarrow> 'act list \<times> ('act, 'r) agent_state" where
  "plan cfg opt m obs st =
     (let mean0 = warm_start cfg (previous_solution st)
      in case opt m obs mean0 (generator st) of
           (best, g) \<Rightarrow>
             (best, st\<lparr>previous_solution := Some best, generator := g,
                       plan_log := plan_log st @ [Planned mean0 best]\<rparr>))"

text \<open>
  One call of \<^verbatim>\<open>agent.act(obs)\<close>: use up planned actions first, plan when none is
  left. A plan without a usable action (a horizon or a replan frequency of zero) is
  outside what the spec describes; the default action is returned there.
\<close>

definition trajectory_optimizer_act ::
  "'act agent_config \<Rightarrow> ('m \<Rightarrow> 'obs \<Rightarrow> 'act list \<Rightarrow> 'r \<Rightarrow> 'act list \<times> 'r) \<Rightarrow>
   'm \<Rightarrow> ('act, 'r) agent_state \<Rightarrow> 'obs \<Rightarrow> 'act \<times> ('act, 'r) agent_state" where
  "trajectory_optimizer_act cfg opt m st obs =
     (case actions_to_use st of
        a # rest \<Rightarrow> (a, st\<lparr>actions_to_use := rest\<rparr>)
      | [] \<Rightarrow>
          (case plan cfg opt m obs st of
             (best, st') \<Rightarrow>
               (case take (replan_freq cfg) best of
                  a # rest \<Rightarrow> (a, st'\<lparr>actions_to_use := rest\<rparr>)
                | [] \<Rightarrow> (default_action cfg, st'))))"

definition trajectory_optimizer_reset :: "('act, 'r) agent_state \<Rightarrow> ('act, 'r) agent_state" where
  "trajectory_optimizer_reset st =
     st\<lparr>previous_solution := None, actions_to_use := [],
        plan_log := plan_log st @ [WarmStartCleared]\<rparr>"

text \<open>A sequence of calls on the agent, as the main loop issues them.\<close>

datatype ('m, 'obs) agent_call = Act 'm 'obs | Reset

fun agent_calls ::
  "'act agent_config \<Rightarrow> ('m \<Rightarrow> 'obs \<Rightarrow> 'act list \<Rightarrow> 'r \<Rightarrow> 'act list \<times> 'r) \<Rightarrow>
   ('m, 'obs) agent_call list \<Rightarrow> ('act, 'r) agent_state \<Rightarrow> ('act, 'r) agent_state" where
  "agent_calls cfg opt [] st = st"
| "agent_calls cfg opt (Act m obs # cs) st =
     agent_calls cfg opt cs (snd (trajectory_optimizer_act cfg opt m st obs))"
| "agent_calls cfg opt (Reset # cs) st = agent_calls cfg opt cs (trajectory_optimizer_reset st)"

text \<open>
  A planning log is warm-started when every planning call starts from the shifted result
  of the planning call before it, and from the default sequence when there is none
  since the last reset.
\<close>

fun warm_started :: "'act agent_config \<Rightarrow> 'act list option \<Rightarrow> 'act plan_event list \<Rightarrow> bool" where
  "warm_started cfg prev [] = True"
| "warm_started cfg prev (Planned mean0 best # evs) =
     (mean0 = warm_start cfg prev \<and> warm_started cfg (Some best) evs)"
| "warm_started cfg prev (WarmStartCleared # evs) = warm_started cfg None evs"

subsection \<open>Notions used in the statements below\<close>

text \<open>The transitions recorded by the environment steps of a call log, in order.\<close>

fun env_steps :: "('obs, 'act) call list \<Rightarrow> ('obs, 'act) transition list" where
  "env_steps [] = []"
| "env_steps (StepEnv tr # cs) = tr # env_steps cs"
| "env_steps (c # cs) = env_steps cs"

text \<open>The calls of \<open>k\<close> training epochs starting at epoch \<open>ep\<close>: each epoch is followed by
  its callback.\<close>

definition epoch_calls :: "nat \<Rightarrow> nat \<Rightarrow> ('obs, 'act) call list" where
  "epoch_calls ep k = concat (map (\<lambda>i. [TrainEpoch i, TrainCallback i]) [ep..<ep + k])"

text \<open>A training call that saw data: a non-empty argument of the normalizer, a non-empty
  buffer under the iterators.\<close>

fun training_on_data :: "('obs, 'act) call \<Rightarrow> bool" where
  "training_on_data (UpdateNormalizer d) = (d \<noteq> [])"
| "training_on_data (GetBufferIterators n) = (0 < n)"
| "training_on_data c = True"

text \<open>The agent after a run of \<open>agent.act\<close> calls on the given observations, the dynamics
  model staying the same (as it does between two training blocks).\<close>

fun agent_acts :: "('e, 'g, 'm, 'obs, 'act) library \<Rightarrow> 'm \<Rightarrow> 'g \<Rightarrow> 'obs list \<Rightarrow> 'g" where
  "agent_acts lib m g [] = g"
| "agent_acts lib m g (obs # os) = agent_acts lib m (snd (agent_act lib m g obs)) os"

text \<open>The agent after a list of trials, each given by the model it planned with and the
  observations it acted on: every trial starts with a reset.\<close>

fun agent_trials ::
  "('e, 'g, 'm, 'obs, 'act) library \<Rightarrow> 'g \<Rightarrow> ('m \<times> 'obs list) list \<Rightarrow> 'g" where
  "agent_trials lib g [] = g"
| "agent_trials lib g ((m, os) # tms) =
     agent_trials lib (agent_acts lib m (agent_reset lib g) os) tms"

text \<open>The previous solution the agent holds after a list of planning events.\<close>

fun solution_after :: "'act list option \<Rightarrow> 'act plan_event list \<Rightarrow> 'act list option" where
  "solution_after prev [] = prev"
| "solution_after prev (Planned mean0 best # evs) = solution_after (Some best) evs"
| "solution_after prev (WarmStartCleared # evs) = solution_after None evs"

text \<open>An environment that never reports termination.\<close>

definition never_done :: "('e, 'g, 'm, 'obs, 'act) library \<Rightarrow> bool" where
  "never_done lib \<longleftrightarrow> (\<forall>e a. \<not> snd (snd (fst (env_step lib e a))))"

text \<open>The body of the trial loop below the training block: one environment step, the
  test of the step counter, and the rest of the loop.\<close>

definition step_and_continue ::
  "('e, 'g, 'm, 'obs, 'act) library \<Rightarrow> config \<Rightarrow>
   ('e, 'g, 'm, 'obs, 'act) pets_state \<times> 'obs \<times> real \<times> nat \<Rightarrow>
   (error + ('e, 'g, 'm, 'obs, 'act) pets_state \<times> real \<times> nat) option" where
  "step_and_continue lib cfg x =
     (case x of (st1, obs, total_reward, steps_trial) \<Rightarrow>
        (case step_env_and_add_to_buffer lib obs st1 of
           ((next_obs, reward, done'), st2) \<Rightarrow>
             if steps_trial + 1 = trial_length cfg
             then Some (Inr (st2, total_reward + reward, steps_trial + 1))
             else trial_loop lib cfg
                    (st2, next_obs, done', total_reward + reward, steps_trial + 1)))"

text \<open>The ring invariant: the slots in use are exactly the first \<open>num_stored\<close> ones while
  the ring fills, the cursor stays inside the ring, and every slot in use holds a
  transition.\<close>

definition rb_wf :: "'a ReplayBuffer \<Rightarrow> bool" where
  "rb_wf b \<longleftrightarrow>
     length (storage b) = capacity b \<and> num_stored b \<le> capacity b \<and>
     cur_idx b = (if num_stored b < capacity b then num_stored b
                  else cur_idx b mod capacity b) \<and>
     slots_in_order b = map Some (get_all b) \<and> length (get_all b) = num_stored b"


text \<open>A concrete instance for checking the statements below on an input: a library over
  one-point states whose environment pays reward 1 and never reports termination, and a
  program state whose buffer holds one transition.\<close>

definition idle_library :: "(unit, unit, unit, unit, unit) library" where
  "idle_library =
     \<lparr>env_reset = (\<lambda>e. ((), e)),
      env_step = (\<lambda>e a. (((), 1, False), e)),
      random_act = (\<lambda>e obs. ((), e)),
      agent_reset = (\<lambda>g. g),
      agent_act = (\<lambda>m g obs. ((), g)),
      update_normalizer = (\<lambda>m ts. m),
      split_train_val = (\<lambda>ratio ts. (ts, [])),
      fit_epoch = (\<lambda>m d. (m, 1)),
      evaluate = (\<lambda>m d. [1]),
      improved = (\<lambda>best score. False)\<rparr>"

text \<open>The same environment with real-valued actions and the trajectory optimizer agent of
  cell 15 (planning horizon 15, replanning at every step) around a stand-in search that
  returns its initial mean raised by one.\<close>

definition planning_config :: "real agent_config" where
  "planning_config =
     \<lparr>planning_horizon = 15, replan_freq = 1, default_action = 0, duplicate_last = False\<rparr>"

definition raise_mean :: "unit \<Rightarrow> unit \<Rightarrow> real list \<Rightarrow> unit \<Rightarrow> real list \<times> unit" where
  "raise_mean m obs mean0 g = (map (\<lambda>a. a + 1) mean0, g)"

definition planning_library :: "(unit, (real, unit) agent_state, unit, unit, real) library" where
  "planning_library =
     \<lparr>env_reset = (\<lambda>e. ((), e)),
      env_step = (\<lambda>e a. (((), 1, False), e)),
      random_act = (\<lambda>e obs. (0, e)),
      agent_reset = trajectory_optimizer_reset,
      agent_act = trajectory_optimizer_act planning_config raise_mean,
      update_normalizer = (\<lambda>m ts. m),
      split_train_val = (\<lambda>ratio ts. (ts, [])),
      fit_epoch = (\<lambda>m d. (m, 1)),
      evaluate = (\<lambda>m d. [1]),
      improved = (\<lambda>best score. False)\<rparr>"

definition fresh_agent :: "(real, unit) agent_state" where
  "fresh_agent = \<lparr>previous_solution = None, actions_to_use = [], generator = (), plan_log = []\<rparr>"

definition one_transition_state :: "(unit, unit, unit, unit, unit) pets_state" where
  "one_transition_state =
     \<lparr>env = (), agent = (), dynamics_model = (),
      replay_buffer = add (create_replay_buffer 1)
        \<lparr>tr_obs = (), tr_act = (), tr_next_obs = (), tr_reward = 1, tr_done = False\<rparr>,
      train_losses = [], val_scores = [], all_rewards = [0], calls = []\<rparr>"

section \<open>Properties\<close>

subsection \<open>The ring buffer\<close>

lemma map_filter_Some: "List.map_filter (\<lambda>s. s) (map Some xs) = xs"
  by (induction xs) (simp_all add: List.map_filter_simps)

lemma take_update_last: "n < length st \<Longrightarrow> take (Suc n) (st[n := x]) = take n st @ [x]"
  by (simp add: take_Suc_conv_app_nth)

lemma ring_rotate_step:
  assumes "c < length st"
  shows "drop (Suc c mod length st) (st[c := x]) @ take (Suc c mod length st) (st[c := x])
         = tl (drop c st @ take c st) @ [x]"
proof (cases "Suc c < length st")
  case True
  have "drop c st = st ! c # drop (Suc c) st"
    using assms by (simp add: Cons_nth_drop_Suc)
  then have "tl (drop c st @ take c st) = drop (Suc c) st @ take c st"
    by simp
  with True assms show ?thesis
    by (simp add: take_update_last)
next
  case False
  with assms have len: "Suc c = length st" by simp
  then have m: "Suc c mod length st = 0" by simp
  have "drop c st = [st ! c]"
    using len by (metis Cons_nth_drop_Suc assms drop_all le_refl)
  then have "tl (drop c st @ take c st) = take c st" by simp
  moreover have "st[c := x] = take c st @ [x]"
    using len by (metis take_update_last assms length_list_update take_all le_refl)
  ultimately show ?thesis
    using m by simp
qed

lemma rb_wf_create: "rb_wf (create_replay_buffer cap)"
  by (simp add: rb_wf_def create_replay_buffer_def slots_in_order_def get_all_def List.map_filter_simps)

lemma slots_add_notfull:
  assumes "rb_wf b" "num_stored b < capacity b"
  shows "slots_in_order (add b t) = slots_in_order b @ [Some t]"
proof -
  let ?n = "num_stored b" and ?st = "storage b"
  from assms have n: "?n < length ?st" and c: "cur_idx b = ?n"
    by (simp_all add: rb_wf_def)
  show ?thesis
  proof (cases "Suc ?n < capacity b")
    case True
    with assms n c show ?thesis
      by (simp add: add_def slots_in_order_def rb_wf_def take_update_last)
  next
    case False
    with assms n have len: "Suc ?n = length ?st" by (simp add: rb_wf_def)
    then have "?st[?n := Some t] = take ?n ?st @ [Some t]"
      by (metis take_update_last n length_list_update take_all le_refl)
    with assms n c len show ?thesis
      by (simp add: add_def slots_in_order_def rb_wf_def)
  qed
qed

lemma slots_add_full:
  assumes "rb_wf b" "num_stored b = capacity b" "0 < capacity b"
  shows "slots_in_order (add b t) = tl (slots_in_order b) @ [Some t]"
proof -
  from assms have c: "cur_idx b < length (storage b)" and len: "length (storage b) = capacity b"
    by (simp_all add: rb_wf_def) (metis mod_less_divisor)
  from ring_rotate_step [OF c, of "Some t"] assms len show ?thesis
    by (simp add: add_def slots_in_order_def)
qed

lemma get_all_add:
  assumes "rb_wf b" "0 < capacity b"
  shows "get_all (add b t) =
     (if num_stored b < capacity b then get_all b @ [t] else tl (get_all b) @ [t])"
proof (cases "num_stored b < capacity b")
  case True
  from slots_add_notfull [OF assms(1) True, of t] assms(1)
  have "slots_in_order (add b t) = map Some (get_all b @ [t])"
    by (simp add: rb_wf_def)
  then have "get_all (add b t) = get_all b @ [t]"
    unfolding get_all_def [of "add b t"] by (simp only: map_filter_Some)
  with True show ?thesis by simp
next
  case False
  with assms(1) have full: "num_stored b = capacity b" by (simp add: rb_wf_def)
  from slots_add_full [OF assms(1) full assms(2), of t] assms(1)
  have "slots_in_order (add b t) = map Some (tl (get_all b) @ [t])"
    by (simp add: rb_wf_def map_tl)
  then have "get_all (add b t) = tl (get_all b) @ [t]"
    unfolding get_all_def [of "add b t"] by (simp only: map_filter_Some)
  with False show ?thesis by simp
qed

lemma num_stored_add:
  "num_stored (add b t) = (if capacity b = 0 then num_stored b else min (num_stored b + 1) (capacity b))"
  by (simp add: add_def)

lemma capacity_add: "capacity (add b t) = capacity b"
  by (simp add: add_def)

lemma rb_wf_add:
  assumes "rb_wf b"
  shows "rb_wf (add b t)"
proof (cases "capacity b = 0")
  case True
  with assms show ?thesis by (simp add: add_def)
next
  case False
  then have pos: "0 < capacity b" by simp
  have g: "get_all (add b t) =
     (if num_stored b < capacity b then get_all b @ [t] else tl (get_all b) @ [t])"
    by (rule get_all_add [OF assms pos])
  have s: "slots_in_order (add b t) = map Some (get_all (add b t))"
  proof (cases "num_stored b < capacity b")
    case True
    from slots_add_notfull [OF assms True, of t] assms g True show ?thesis
      by (simp add: rb_wf_def)
  next
    case False
    with assms have full: "num_stored b = capacity b" by (simp add: rb_wf_def)
    from slots_add_full [OF assms full pos, of t] assms g False show ?thesis
      by (simp add: rb_wf_def map_tl)
  qed
  have l: "length (get_all (add b t)) = num_stored (add b t)"
    using assms pos g by (auto simp: rb_wf_def num_stored_add min_def)
  have c: "cur_idx (add b t) =
     (if num_stored (add b t) < capacity (add b t) then num_stored (add b t)
      else cur_idx (add b t) mod capacity (add b t))"
    using assms pos by (auto simp: rb_wf_def add_def min_def)
  have "length (storage (add b t)) = capacity (add b t)"
    "num_stored (add b t) \<le> capacity (add b t)"
    using assms pos by (simp_all add: rb_wf_def add_def)
  with s l c show ?thesis
    unfolding rb_wf_def [of "add b t"] by simp
qed

lemma add_all_snoc: "add_all b (ts @ [t]) = add (add_all b ts) t"
  by (simp add: add_all_def)

lemma rb_wf_add_all: "rb_wf b \<Longrightarrow> rb_wf (add_all b ts)"
  by (induction ts rule: rev_induct) (simp_all add: add_all_def rb_wf_add)

lemma capacity_add_all: "capacity (add_all b ts) = capacity b"
  by (induction ts rule: rev_induct) (simp_all add: add_all_def capacity_add)

lemma add_all_from_empty:
  "num_stored (add_all (create_replay_buffer cap) ts) = min (length ts) cap \<and>
   get_all (add_all (create_replay_buffer cap) ts) = drop (length ts - cap) ts"
proof (induction ts rule: rev_induct)
  case Nil
  show ?case
    by (simp add: add_all_def create_replay_buffer_def get_all_def slots_in_order_def
        List.map_filter_simps)
next
  case (snoc t ts)
  let ?b = "add_all (create_replay_buffer cap) ts"
  have wf: "rb_wf ?b" by (rule rb_wf_add_all [OF rb_wf_create])
  have cap: "capacity ?b = cap" by (simp add: capacity_add_all create_replay_buffer_def)
  show ?case
  proof (cases "cap = 0")
    case True
    with cap snoc show ?thesis by (simp add: add_all_snoc add_def)
  next
    case False
    then have cpos: "0 < cap" by simp
    then have pos: "0 < capacity ?b" using cap by simp
    have n: "num_stored (add ?b t) = min (length (ts @ [t])) cap"
      using snoc cap cpos by (simp add: num_stored_add min_def)
    have "get_all (add ?b t) = drop (length (ts @ [t]) - cap) (ts @ [t])"
    proof (cases "length ts < cap")
      case True
      with snoc cap get_all_add [OF wf pos, of t] show ?thesis by simp
    next
      case False
      with cpos have "drop (length (ts @ [t]) - cap) (ts @ [t]) = tl (drop (length ts - cap) ts) @ [t]"
        by (simp add: drop_Suc tl_drop Suc_diff_le)
      with False snoc cap get_all_add [OF wf pos, of t] show ?thesis by simp
    qed
    with n show ?thesis by (simp add: add_all_snoc)
  qed
qed

text \<open>
  Claim C2. For every capacity and every sequence of \<open>add\<close> calls on a fresh buffer, the
  number of stored transitions never exceeds the capacity, and the buffer holds, oldest
  first, exactly the last \<open>capacity\<close> transitions that were added; in particular, once
  more than \<open>capacity\<close> transitions have been added the buffer is full and the oldest
  ones are gone.
\<close>

theorem buffer_fifo_capacity:
  "num_stored (add_all (create_replay_buffer cap) ts)
     \<le> capacity (add_all (create_replay_buffer cap) ts) \<and>
   capacity (add_all (create_replay_buffer cap) ts) = cap \<and>
   get_all (add_all (create_replay_buffer cap) ts) = drop (length ts - cap) ts \<and>
   (cap < length ts \<longrightarrow>
      num_stored (add_all (create_replay_buffer cap) ts) = cap \<and>
      length (get_all (add_all (create_replay_buffer cap) ts)) = cap)"
proof -
  let ?b = "add_all (create_replay_buffer cap) ts"
  have c: "capacity ?b = cap"
    by (simp add: capacity_add_all create_replay_buffer_def)
  have n: "num_stored ?b = min (length ts) cap" and g: "get_all ?b = drop (length ts - cap) ts"
    using add_all_from_empty [of cap ts] by simp_all
  from c n g show ?thesis by simp
qed

theorem buffer_fifo_capacity_witness:
  "(2::nat) < length [1, 2, 3 :: nat] \<and>
   num_stored (add_all (create_replay_buffer 2) [1, 2, 3 :: nat]) = 2 \<and>
   get_all (add_all (create_replay_buffer 2) [1, 2, 3 :: nat]) = [2, 3]"
  using buffer_fifo_capacity [of 2 "[1, 2, 3 :: nat]"] by simp

subsection \<open>The trainer and the trial loop\<close>

lemma epoch_calls_0: "epoch_calls ep 0 = []"
  by (simp add: epoch_calls_def)

lemma epoch_calls_Suc: "epoch_calls ep (Suc k) = [TrainEpoch ep, TrainCallback ep] @ epoch_calls (Suc ep) k"
  by (simp add: epoch_calls_def upt_conv_Cons)

lemma train_epochs_result:
  fixes cb :: "nat \<Rightarrow> real \<Rightarrow> real list \<Rightarrow> real list \<Rightarrow> 'c \<Rightarrow> 'c" and f :: "'c \<Rightarrow> nat"
  assumes cnt: "\<And>e l v b a. f (cb e l v b a) = Suc (f a)"
  shows "\<exists>k m' best' since' acc'.
     train_epochs lib cb dtr dval pat n ep (m, best, since, acc, cs)
       = (m', best', since', acc', cs @ epoch_calls ep k) \<and>
     k \<le> n \<and> (0 < n \<longrightarrow> 0 < k) \<and> (k < n \<longrightarrow> pat \<le> since') \<and> f acc' = f acc + k \<and>
     since' \<le> since + k \<and> (best = None \<longrightarrow> 0 < k \<longrightarrow> since' < k)"
proof (induction n arbitrary: ep m best since acc cs)
  case 0
  show ?case by (simp add: epoch_calls_0)
next
  case (Suc n)
  obtain m1 tr_loss where fit: "fit_epoch lib m dtr = (m1, tr_loss)"
    by (cases "fit_epoch lib m dtr")
  define val_score where "val_score = evaluate lib m1 dval"
  define better where "better = (case best of None \<Rightarrow> True | Some b \<Rightarrow> improved lib b val_score)"
  define best1 where "best1 = (case best of None \<Rightarrow> val_score | Some b \<Rightarrow> if better then val_score else b)"
  define since1 where "since1 = (if better then 0 else since + 1)"
  define acc1 where "acc1 = cb ep tr_loss val_score best1 acc"
  define cs1 where "cs1 = cs @ [TrainEpoch ep, TrainCallback ep]"
  have unfold: "train_epochs lib cb dtr dval pat (Suc n) ep (m, best, since, acc, cs) =
      (if pat \<le> since1 then (m1, Some best1, since1, acc1, cs1)
       else train_epochs lib cb dtr dval pat n (ep + 1) (m1, Some best1, since1, acc1, cs1))"
    unfolding cs1_def acc1_def since1_def best1_def better_def val_score_def
    by (simp add: fit Let_def)
  have s1: "since1 \<le> since + 1" "best = None \<longrightarrow> since1 = 0"
    by (simp_all add: since1_def better_def)
  show ?case
  proof (cases "pat \<le> since1")
    case True
    have "train_epochs lib cb dtr dval pat (Suc n) ep (m, best, since, acc, cs)
          = (m1, Some best1, since1, acc1, cs @ epoch_calls ep 1)"
      using True unfold by (simp add: cs1_def epoch_calls_Suc epoch_calls_0)
    moreover have "f acc1 = f acc + 1" by (simp add: acc1_def cnt)
    ultimately show ?thesis using True s1
      by (intro exI [of _ 1] exI [of _ m1] exI [of _ "Some best1"] exI [of _ since1] exI [of _ acc1]) simp
  next
    case False
    from Suc.IH [of "ep + 1" m1 "Some best1" since1 acc1 cs1]
    obtain k m' best' since' acc' where
      r: "train_epochs lib cb dtr dval pat n (ep + 1) (m1, Some best1, since1, acc1, cs1)
            = (m', best', since', acc', cs1 @ epoch_calls (ep + 1) k)"
      and k: "k \<le> n" "k < n \<longrightarrow> pat \<le> since'" "f acc' = f acc1 + k" "since' \<le> since1 + k"
      by blast
    have "train_epochs lib cb dtr dval pat (Suc n) ep (m, best, since, acc, cs)
          = (m', best', since', acc', cs @ epoch_calls ep (Suc k))"
      using False unfold r by (simp add: cs1_def epoch_calls_Suc)
    moreover have "f acc' = f acc + Suc k" using k by (simp add: acc1_def cnt)
    moreover have "since' \<le> since + Suc k" "best = None \<longrightarrow> since' < Suc k"
      using k(4) s1 by auto
    ultimately show ?thesis using k
      by (intro exI [of _ "Suc k"] exI [of _ m'] exI [of _ best'] exI [of _ since'] exI [of _ acc']) simp
  qed
qed

lemma trial_loop_done:
  "trial_loop lib cfg (st, obs, True, r, k) = Some (Inr (st, r, k))"
  by (subst trial_loop.simps) simp

lemma trial_loop_not_done:
  "trial_loop lib cfg (st, obs, False, r, k) =
     (case (if k = 0 then model_training lib cfg st else Inr st) of
        Inl err \<Rightarrow> Some (Inl err)
      | Inr st1 \<Rightarrow> step_and_continue lib cfg (st1, obs, r, k))"
  by (subst trial_loop.simps) (cases "k = 0"; simp add: step_and_continue_def split: sum.splits)

lemma step_env_and_add_to_buffer_effect:
  "\<exists>tr st2. step_env_and_add_to_buffer lib obs st1 = ((tr_next_obs tr, tr_reward tr, tr_done tr), st2) \<and>
     calls st2 = calls st1 @ [StepEnv tr] \<and>
     replay_buffer st2 = add (replay_buffer st1) tr \<and>
     tr_obs tr = obs \<and> (never_done lib \<longrightarrow> \<not> tr_done tr) \<and>
     agent st2 = snd (agent_act lib (dynamics_model st1) (agent st1) obs) \<and>
     dynamics_model st2 = dynamics_model st1 \<and> train_losses st2 = train_losses st1 \<and>
     val_scores st2 = val_scores st1 \<and> all_rewards st2 = all_rewards st1"
proof -
  obtain action g where a: "agent_act lib (dynamics_model st1) (agent st1) obs = (action, g)"
    by (cases "agent_act lib (dynamics_model st1) (agent st1) obs")
  obtain next_obs reward dn e where s: "env_step lib (env st1) action = ((next_obs, reward, dn), e)"
    by (cases "env_step lib (env st1) action") auto
  have "never_done lib \<longrightarrow> \<not> dn"
  proof
    assume "never_done lib"
    then have "\<not> snd (snd (fst (env_step lib (env st1) action)))"
      unfolding never_done_def by blast
    then show "\<not> dn" by (simp add: s)
  qed
  with a s show ?thesis
    by (intro exI [of _ "\<lparr>tr_obs = obs, tr_act = action, tr_next_obs = next_obs,
          tr_reward = reward, tr_done = dn\<rparr>"]) (simp add: step_env_and_add_to_buffer_def Let_def)
qed

lemma step_and_continue_result:
  assumes "k < trial_length cfg"
  shows "\<exists>st' ts. step_and_continue lib cfg (st1, obs, r, k)
            = Some (Inr (st', r + sum_list (map tr_reward ts), k + length ts)) \<and>
          ts \<noteq> [] \<and> k + length ts \<le> trial_length cfg \<and>
          calls st' = calls st1 @ map StepEnv ts \<and>
          replay_buffer st' = add_all (replay_buffer st1) ts \<and>
          (\<forall>t \<in> set (butlast ts). \<not> tr_done t) \<and>
          (tr_done (last ts) \<or> k + length ts = trial_length cfg) \<and>
          (never_done lib \<longrightarrow> k + length ts = trial_length cfg) \<and>
          agent st' = agent_acts lib (dynamics_model st1) (agent st1) (obs # map tr_next_obs (butlast ts)) \<and>
          dynamics_model st' = dynamics_model st1 \<and> train_losses st' = train_losses st1 \<and>
          val_scores st' = val_scores st1 \<and> all_rewards st' = all_rewards st1"
  using assms
proof (induction "trial_length cfg - k" arbitrary: k st1 obs r)
  case 0
  then show ?case by simp
next
  case (Suc d)
  obtain tr st2 where
    step: "step_env_and_add_to_buffer lib obs st1 = ((tr_next_obs tr, tr_reward tr, tr_done tr), st2)"
    and eff: "calls st2 = calls st1 @ [StepEnv tr]" "replay_buffer st2 = add (replay_buffer st1) tr"
      "never_done lib \<longrightarrow> \<not> tr_done tr"
      "agent st2 = snd (agent_act lib (dynamics_model st1) (agent st1) obs)"
      "dynamics_model st2 = dynamics_model st1" "train_losses st2 = train_losses st1"
      "val_scores st2 = val_scores st1" "all_rewards st2 = all_rewards st1"
    using step_env_and_add_to_buffer_effect [of lib obs st1] by blast
  show ?case
  proof (cases "k + 1 = trial_length cfg")
    case True
    then have "step_and_continue lib cfg (st1, obs, r, k)
        = Some (Inr (st2, r + sum_list (map tr_reward [tr]), k + length [tr]))"
      by (simp add: step_and_continue_def step)
    with True eff show ?thesis
      by (intro exI [of _ st2] exI [of _ "[tr]"]) (simp add: add_all_def)
  next
    case False
    then have cont: "step_and_continue lib cfg (st1, obs, r, k)
        = trial_loop lib cfg (st2, tr_next_obs tr, tr_done tr, r + tr_reward tr, k + 1)"
      by (simp add: step_and_continue_def step)
    show ?thesis
    proof (cases "tr_done tr")
      case True
      with cont have "step_and_continue lib cfg (st1, obs, r, k)
          = Some (Inr (st2, r + sum_list (map tr_reward [tr]), k + length [tr]))"
        by (simp add: trial_loop_done)
      with True eff Suc.prems show ?thesis
        by (intro exI [of _ st2] exI [of _ "[tr]"]) (simp add: add_all_def)
    next
      case nd: False
      from False Suc.prems have lt: "k + 1 < trial_length cfg" by simp
      from Suc.hyps(2) have d: "d = trial_length cfg - (k + 1)" by simp
      from Suc.hyps(1) [OF d lt, of st2 "tr_next_obs tr" "r + tr_reward tr"]
      obtain st' ts where
        res: "step_and_continue lib cfg (st2, tr_next_obs tr, r + tr_reward tr, k + 1)
                = Some (Inr (st', r + tr_reward tr + sum_list (map tr_reward ts), k + 1 + length ts))"
        and props: "ts \<noteq> []" "k + 1 + length ts \<le> trial_length cfg"
          "calls st' = calls st2 @ map StepEnv ts"
          "replay_buffer st' = add_all (replay_buffer st2) ts"
          "\<forall>t \<in> set (butlast ts). \<not> tr_done t"
          "tr_done (last ts) \<or> k + 1 + length ts = trial_length cfg"
          "never_done lib \<longrightarrow> k + 1 + length ts = trial_length cfg"
          "agent st' = agent_acts lib (dynamics_model st2) (agent st2)
             (tr_next_obs tr # map tr_next_obs (butlast ts))"
          "dynamics_model st' = dynamics_model st2" "train_losses st' = train_losses st2"
          "val_scores st' = val_scores st2" "all_rewards st' = all_rewards st2"
        by blast
      from cont nd res have "step_and_continue lib cfg (st1, obs, r, k)
          = Some (Inr (st', r + sum_list (map tr_reward (tr # ts)), k + length (tr # ts)))"
        by (simp add: trial_loop_not_done add.assoc)
      with props eff nd show ?thesis
        by (intro exI [of _ st'] exI [of _ "tr # ts"]) (simp add: add_all_def)
    qed
  qed
qed




lemma env_steps_append: "env_steps (xs @ ys) = env_steps xs @ env_steps ys"
  by (induction xs rule: env_steps.induct) simp_all

lemma env_steps_StepEnv: "env_steps (map StepEnv ts) = ts"
  by (induction ts) simp_all

lemma env_steps_epoch_calls: "env_steps (epoch_calls ep k) = []"
  by (induction k arbitrary: ep) (simp_all add: epoch_calls_0 epoch_calls_Suc)

lemma training_on_data_StepEnv: "list_all training_on_data (map StepEnv ts)"
  by (induction ts) simp_all

lemma training_on_data_epoch_calls: "list_all training_on_data (epoch_calls ep k)"
  by (induction k arbitrary: ep) (simp_all add: epoch_calls_0 epoch_calls_Suc)

lemma length_epoch_calls: "length (epoch_calls ep k) = 2 * k"
  by (induction k arbitrary: ep) (simp_all add: epoch_calls_0 epoch_calls_Suc)

lemma epoch_calls_inj:
  assumes "(epoch_calls ep k :: ('obs, 'act) call list) = epoch_calls ep k'"
  shows "k = k'"
proof -
  from assms have "length (epoch_calls ep k :: ('obs, 'act) call list)
      = length (epoch_calls ep k' :: ('obs, 'act) call list)"
    by simp
  then show ?thesis by (simp add: length_epoch_calls)
qed

lemma model_training_empty:
  "num_stored (replay_buffer st) = 0 \<Longrightarrow> model_training lib cfg st = Inl EmptyBufferError"
  by (simp add: model_training_def get_basic_buffer_iterators_def Let_def)

lemma train_callback_fst: "length (fst (train_callback e l v b a)) = Suc (length (fst a))"
  by (simp add: train_callback_def)

lemma train_callback_snd: "length (snd (train_callback e l v b a)) = Suc (length (snd a))"
  by (simp add: train_callback_def)

lemma model_training_result:
  assumes "0 < num_stored (replay_buffer st)"
  shows "\<exists>st1 k dtr dval m' best since acc'.
     model_training lib cfg st = Inr st1 \<and>
     calls st1 = calls st @ [UpdateNormalizer (get_all (replay_buffer st)),
                             GetBufferIterators (num_stored (replay_buffer st))] @ epoch_calls 0 k \<and>
     k \<le> num_epochs cfg \<and> (0 < num_epochs cfg \<longrightarrow> 0 < k) \<and>
     length (train_losses st1) = length (train_losses st) + k \<and>
     length (val_scores st1) = length (val_scores st) + k \<and>
     replay_buffer st1 = replay_buffer st \<and> env st1 = env st \<and> agent st1 = agent st \<and>
     all_rewards st1 = all_rewards st \<and>
     get_basic_buffer_iterators lib (replay_buffer st) (model_batch_size cfg)
       (validation_ratio cfg) = Inr (dtr, dval) \<and>
     train_epochs lib train_callback dtr dval (patience cfg) (num_epochs cfg) 0
       (update_normalizer lib (dynamics_model st) (get_all (replay_buffer st)), None, 0,
        (train_losses st, val_scores st),
        calls st @ [UpdateNormalizer (get_all (replay_buffer st)),
                    GetBufferIterators (num_stored (replay_buffer st))])
       = (m', best, since, acc',
          calls st @ [UpdateNormalizer (get_all (replay_buffer st)),
                      GetBufferIterators (num_stored (replay_buffer st))] @ epoch_calls 0 k) \<and>
     (k < num_epochs cfg \<longrightarrow> patience cfg \<le> since \<and> patience cfg < k) \<and>
     dynamics_model st1 = m' \<and> train_losses st1 = fst acc' \<and> val_scores st1 = snd acc'"
proof -
  let ?all = "get_all (replay_buffer st)"
  let ?m1 = "update_normalizer lib (dynamics_model st) ?all"
  let ?cs = "calls st @ [UpdateNormalizer ?all, GetBufferIterators (num_stored (replay_buffer st))]"
  obtain dtr dval where it: "get_basic_buffer_iterators lib (replay_buffer st)
       (model_batch_size cfg) (validation_ratio cfg) = Inr (dtr, dval)"
    using assms
    by (cases "split_train_val lib (validation_ratio cfg) (get_all (replay_buffer st))")
      (simp add: get_basic_buffer_iterators_def)
  let ?acc = "(train_losses st, val_scores st)"
  from train_epochs_result [of "length \<circ> fst" train_callback lib dtr dval "patience cfg"
      "num_epochs cfg" 0 ?m1 None 0 ?acc ?cs]
  obtain k m' best' since' acc' where
    te: "train_epochs lib train_callback dtr dval (patience cfg) (num_epochs cfg) 0
           (?m1, None, 0, ?acc, ?cs) = (m', best', since', acc', ?cs @ epoch_calls 0 k)"
    and k: "k \<le> num_epochs cfg" "0 < num_epochs cfg \<longrightarrow> 0 < k"
      "k < num_epochs cfg \<longrightarrow> patience cfg \<le> since'" "0 < k \<longrightarrow> since' < k"
    and l1: "length (fst acc') = length (train_losses st) + k"
    by (auto simp: train_callback_fst)
  from k have k2: "k < num_epochs cfg \<longrightarrow> patience cfg < k" by auto
  from train_epochs_result [of "length \<circ> snd" train_callback lib dtr dval "patience cfg"
      "num_epochs cfg" 0 ?m1 None 0 ?acc ?cs] te
  have l2: "length (snd acc') = length (val_scores st) + k"
    by (auto simp: train_callback_snd dest: epoch_calls_inj)
  define st1 where "st1 = st\<lparr>dynamics_model := m', train_losses := fst acc',
      val_scores := snd acc', calls := ?cs @ epoch_calls 0 k\<rparr>"
  have "model_training lib cfg st = Inr st1"
    using it te by (simp add: model_training_def model_trainer_train_def Let_def st1_def)
  moreover have "calls st1 = ?cs @ epoch_calls 0 k" "replay_buffer st1 = replay_buffer st"
    "env st1 = env st" "agent st1 = agent st" "all_rewards st1 = all_rewards st"
    "dynamics_model st1 = m'" "train_losses st1 = fst acc'" "val_scores st1 = snd acc'"
    by (simp_all add: st1_def)
  ultimately show ?thesis
    using k k2 l1 l2 it te
    by (intro exI [of _ st1] exI [of _ k] exI [of _ dtr] exI [of _ dval] exI [of _ m']
        exI [of _ best'] exI [of _ since'] exI [of _ acc']) simp
qed

lemma add_all_append: "add_all b (xs @ ys) = add_all (add_all b xs) ys"
  by (simp add: add_all_def)

lemma num_stored_add_all:
  "0 < capacity b \<Longrightarrow> num_stored b \<le> capacity b \<Longrightarrow>
   num_stored (add_all b ts) = min (capacity b) (num_stored b + length ts)"
proof (induction ts rule: rev_induct)
  case Nil
  then show ?case by (simp add: add_all_def)
next
  case (snoc t ts)
  then show ?case
    by (simp add: add_all_snoc num_stored_add capacity_add_all min_def)
qed

lemma trial_loop_empty:
  "num_stored (replay_buffer st) = 0 \<Longrightarrow>
   trial_loop lib cfg (st, obs, False, r, 0) = Some (Inl EmptyBufferError)"
  by (simp add: trial_loop_not_done model_training_empty)

lemma trial_loop_result:
  assumes T: "0 < trial_length cfg" and ne: "0 < num_stored (replay_buffer st)"
  shows "\<exists>st' k ts dtr dval m' best since acc'.
     trial_loop lib cfg (st, obs, False, r, 0)
       = Some (Inr (st', r + sum_list (map tr_reward ts), length ts)) \<and>
     ts \<noteq> [] \<and> length ts \<le> trial_length cfg \<and>
     calls st' = calls st @ [UpdateNormalizer (get_all (replay_buffer st)),
                             GetBufferIterators (num_stored (replay_buffer st))]
                  @ epoch_calls 0 k @ map StepEnv ts \<and>
     k \<le> num_epochs cfg \<and> (0 < num_epochs cfg \<longrightarrow> 0 < k) \<and>
     length (train_losses st') = length (train_losses st) + k \<and>
     length (val_scores st') = length (val_scores st) + k \<and>
     replay_buffer st' = add_all (replay_buffer st) ts \<and>
     (\<forall>t \<in> set (butlast ts). \<not> tr_done t) \<and>
     (tr_done (last ts) \<or> length ts = trial_length cfg) \<and>
     (never_done lib \<longrightarrow> length ts = trial_length cfg) \<and>
     all_rewards st' = all_rewards st \<and>
     get_basic_buffer_iterators lib (replay_buffer st) (model_batch_size cfg)
       (validation_ratio cfg) = Inr (dtr, dval) \<and>
     train_epochs lib train_callback dtr dval (patience cfg) (num_epochs cfg) 0
       (update_normalizer lib (dynamics_model st) (get_all (replay_buffer st)), None, 0,
        (train_losses st, val_scores st),
        calls st @ [UpdateNormalizer (get_all (replay_buffer st)),
                    GetBufferIterators (num_stored (replay_buffer st))])
       = (m', best, since, acc',
          calls st @ [UpdateNormalizer (get_all (replay_buffer st)),
                      GetBufferIterators (num_stored (replay_buffer st))] @ epoch_calls 0 k) \<and>
     (k < num_epochs cfg \<longrightarrow> patience cfg \<le> since \<and> patience cfg < k) \<and>
     dynamics_model st' = m' \<and> train_losses st' = fst acc' \<and> val_scores st' = snd acc' \<and>
     agent st' = agent_acts lib (dynamics_model st') (agent st) (obs # map tr_next_obs (butlast ts))"
proof -
  from model_training_result [OF ne, of lib cfg]
  obtain st1 k dtr dval m' best since acc' where mt: "model_training lib cfg st = Inr st1"
    and p1: "calls st1 = calls st @ [UpdateNormalizer (get_all (replay_buffer st)),
                             GetBufferIterators (num_stored (replay_buffer st))] @ epoch_calls 0 k"
      "k \<le> num_epochs cfg" "0 < num_epochs cfg \<longrightarrow> 0 < k"
      "length (train_losses st1) = length (train_losses st) + k"
      "length (val_scores st1) = length (val_scores st) + k"
      "replay_buffer st1 = replay_buffer st" "all_rewards st1 = all_rewards st"
      "agent st1 = agent st"
    and p3: "get_basic_buffer_iterators lib (replay_buffer st) (model_batch_size cfg)
       (validation_ratio cfg) = Inr (dtr, dval)"
      "train_epochs lib train_callback dtr dval (patience cfg) (num_epochs cfg) 0
       (update_normalizer lib (dynamics_model st) (get_all (replay_buffer st)), None, 0,
        (train_losses st, val_scores st),
        calls st @ [UpdateNormalizer (get_all (replay_buffer st)),
                    GetBufferIterators (num_stored (replay_buffer st))])
       = (m', best, since, acc',
          calls st @ [UpdateNormalizer (get_all (replay_buffer st)),
                      GetBufferIterators (num_stored (replay_buffer st))] @ epoch_calls 0 k)"
      "k < num_epochs cfg \<longrightarrow> patience cfg \<le> since \<and> patience cfg < k"
      "dynamics_model st1 = m'" "train_losses st1 = fst acc'" "val_scores st1 = snd acc'"
    by (elim exE conjE) (rule that)
  from step_and_continue_result [OF T, of lib st1 obs r]
  obtain st' ts where sc: "step_and_continue lib cfg (st1, obs, r, 0)
            = Some (Inr (st', r + sum_list (map tr_reward ts), 0 + length ts))"
    and p2: "ts \<noteq> []" "0 + length ts \<le> trial_length cfg"
          "calls st' = calls st1 @ map StepEnv ts"
          "replay_buffer st' = add_all (replay_buffer st1) ts"
          "\<forall>t \<in> set (butlast ts). \<not> tr_done t"
          "tr_done (last ts) \<or> 0 + length ts = trial_length cfg"
          "never_done lib \<longrightarrow> 0 + length ts = trial_length cfg"
          "agent st' = agent_acts lib (dynamics_model st1) (agent st1)
             (obs # map tr_next_obs (butlast ts))"
          "dynamics_model st' = dynamics_model st1"
          "train_losses st' = train_losses st1"
          "val_scores st' = val_scores st1" "all_rewards st' = all_rewards st1"
    by (elim exE conjE) (rule that)
  have "trial_loop lib cfg (st, obs, False, r, 0)
       = Some (Inr (st', r + sum_list (map tr_reward ts), length ts))"
    using mt sc by (simp add: trial_loop_not_done)
  with p1 p2 p3 show ?thesis
    by (intro exI [of _ st'] exI [of _ k] exI [of _ ts] exI [of _ dtr] exI [of _ dval]
        exI [of _ m'] exI [of _ best] exI [of _ since] exI [of _ acc']) simp
qed

lemma rollout_steps_result:
  "\<exists>e' cs' ts. rollout_steps lib ep n i obs (e, rb, cs) = (e', add_all rb ts, cs') \<and>
     length ts = n \<and> env_steps cs' = env_steps cs @ ts \<and>
     (list_all training_on_data cs \<longrightarrow> list_all training_on_data cs')"
proof (induction n arbitrary: i obs e rb cs)
  case 0
  show ?case by (simp add: add_all_def)
next
  case (Suc n)
  obtain action e1 where a: "random_act lib e obs = (action, e1)"
    by (cases "random_act lib e obs")
  obtain next_obs reward dn e2 where s: "env_step lib e1 action = ((next_obs, reward, dn), e2)"
    by (cases "env_step lib e1 action") auto
  obtain obs0 e3 where r: "env_reset lib e2 = (obs0, e3)"
    by (cases "env_reset lib e2")
  define tr where "tr = \<lparr>tr_obs = obs, tr_act = action, tr_next_obs = next_obs,
                tr_reward = reward, tr_done = dn\<rparr>"
  have unfold: "rollout_steps lib ep (Suc n) i obs (e, rb, cs) =
      (if n = 0 then (e2, add rb tr, cs @ [StepEnv tr])
       else if dn \<or> i + 1 = ep
         then rollout_steps lib ep n 0 obs0 (e3, add rb tr, cs @ [StepEnv tr] @ [EnvReset])
         else rollout_steps lib ep n (i + 1) next_obs (e2, add rb tr, cs @ [StepEnv tr]))"
    unfolding tr_def by (simp add: a s r Let_def)
  show ?case
  proof (cases "n = 0")
    case True
    with unfold show ?thesis
      by (intro exI [of _ e2] exI [of _ "cs @ [StepEnv tr]"] exI [of _ "[tr]"])
        (simp add: add_all_def env_steps_append)
  next
    case False
    define i' obs' e' cs1 where "i' = (if dn \<or> i + 1 = ep then 0 else i + 1)"
      and "obs' = (if dn \<or> i + 1 = ep then obs0 else next_obs)"
      and "e' = (if dn \<or> i + 1 = ep then e3 else e2)"
      and "cs1 = (if dn \<or> i + 1 = ep then cs @ [StepEnv tr] @ [EnvReset] else cs @ [StepEnv tr])"
    have u2: "rollout_steps lib ep (Suc n) i obs (e, rb, cs)
        = rollout_steps lib ep n i' obs' (e', add rb tr, cs1)"
      using False unfold by (simp add: i'_def obs'_def e'_def cs1_def)
    from Suc.IH [of i' obs' e' "add rb tr" cs1]
    obtain e'' cs' ts where
      ih: "rollout_steps lib ep n i' obs' (e', add rb tr, cs1) = (e'', add_all (add rb tr) ts, cs')"
        "length ts = n" "env_steps cs' = env_steps cs1 @ ts"
        "list_all training_on_data cs1 \<longrightarrow> list_all training_on_data cs'"
      by blast
    have c1: "env_steps cs1 = env_steps cs @ [tr]"
      by (simp add: cs1_def env_steps_append)
    have c2: "list_all training_on_data cs \<longrightarrow> list_all training_on_data cs1"
      by (simp add: cs1_def)
    have "add_all (add rb tr) ts = add_all rb (tr # ts)"
      by (simp add: add_all_def)
    with u2 ih c1 c2 show ?thesis
      by (intro exI [of _ e''] exI [of _ cs'] exI [of _ "tr # ts"]) simp
  qed
qed


lemma get_all_nonempty: "rb_wf b \<Longrightarrow> 0 < num_stored b \<Longrightarrow> get_all b \<noteq> []"
  by (auto simp: rb_wf_def)

lemma main_loop_result:
  assumes T: "0 < trial_length cfg"
    and wf: "rb_wf (replay_buffer st)" and cap: "0 < capacity (replay_buffer st)"
    and ne: "0 < num_stored (replay_buffer st)"
    and tod: "list_all training_on_data (calls st)"
  shows "\<exists>st' ns ts tms. main_loop lib cfg trials st = Some (Inr st') \<and>
     length tms = length trials \<and> (\<forall>x \<in> set tms. snd x \<noteq> []) \<and>
     agent st' = agent_trials lib (agent st) tms \<and>
     length ns = length trials \<and> (\<forall>n \<in> set ns. 0 < n \<and> n \<le> trial_length cfg) \<and>
     (never_done lib \<longrightarrow> (\<forall>n \<in> set ns. n = trial_length cfg)) \<and>
     length ts = sum_list ns \<and>
     env_steps (calls st') = env_steps (calls st) @ ts \<and>
     replay_buffer st' = add_all (replay_buffer st) ts \<and>
     list_all training_on_data (calls st') \<and>
     length (all_rewards st') = length (all_rewards st) + length trials"
  using wf cap ne tod
proof (induction trials arbitrary: st)
  case Nil
  then show ?case
    by (intro exI [of _ st] exI [of _ "[]"]) (simp add: add_all_def)
next
  case (Cons trial trials)
  obtain obs e where r: "env_reset lib (env st) = (obs, e)"
    by (cases "env_reset lib (env st)")
  define st1 where "st1 = st\<lparr>env := e, agent := agent_reset lib (agent st),
                       calls := calls st @ [EnvReset, AgentReset]\<rparr>"
  have rb1: "replay_buffer st1 = replay_buffer st" by (simp add: st1_def)
  from Cons.prems have ne1: "0 < num_stored (replay_buffer st1)" by (simp add: rb1)
  from trial_loop_result [OF T ne1, of lib obs 0]
  obtain st2 k ts1 where
    tl: "trial_loop lib cfg (st1, obs, False, 0, 0)
       = Some (Inr (st2, 0 + sum_list (map tr_reward ts1), length ts1))"
    and p: "ts1 \<noteq> []" "length ts1 \<le> trial_length cfg"
     "calls st2 = calls st1 @ [UpdateNormalizer (get_all (replay_buffer st1)),
                             GetBufferIterators (num_stored (replay_buffer st1))]
                  @ epoch_calls 0 k @ map StepEnv ts1"
     "replay_buffer st2 = add_all (replay_buffer st1) ts1"
     "never_done lib \<longrightarrow> length ts1 = trial_length cfg"
     "all_rewards st2 = all_rewards st1"
     "agent st2 = agent_acts lib (dynamics_model st2) (agent st1)
        (obs # map tr_next_obs (butlast ts1))"
    by (elim exE conjE) (rule that)
  define st3 where "st3 = st2\<lparr>all_rewards := all_rewards st2 @ [0 + sum_list (map tr_reward ts1)]\<rparr>"
  have step: "main_loop lib cfg (trial # trials) st = main_loop lib cfg trials st3"
    using r tl by (simp add: st1_def [symmetric] st3_def Let_def)
  have rb3: "replay_buffer st3 = add_all (replay_buffer st) ts1"
    by (simp add: st3_def p rb1)
  have cs3: "calls st3 = calls st @ [EnvReset, AgentReset] @
        [UpdateNormalizer (get_all (replay_buffer st)),
         GetBufferIterators (num_stored (replay_buffer st))]
        @ epoch_calls 0 k @ map StepEnv ts1"
    by (simp add: st3_def p rb1) (simp add: st1_def)
  have wf3: "rb_wf (replay_buffer st3)"
    using Cons.prems(1) by (simp add: rb3 rb_wf_add_all)
  have cap3: "0 < capacity (replay_buffer st3)"
    using Cons.prems(2) by (simp add: rb3 capacity_add_all)
  have "num_stored (replay_buffer st) \<le> capacity (replay_buffer st)"
    using Cons.prems(1) by (simp add: rb_wf_def)
  then have ne3: "0 < num_stored (replay_buffer st3)"
    using Cons.prems(2,3) by (simp add: rb3 num_stored_add_all)
  have tod3: "list_all training_on_data (calls st3)"
    using Cons.prems get_all_nonempty [of "replay_buffer st"]
    by (simp add: cs3 training_on_data_epoch_calls training_on_data_StepEnv)
  have ag3: "agent st3 = agent_acts lib (dynamics_model st2) (agent_reset lib (agent st))
        (obs # map tr_next_obs (butlast ts1))"
    by (simp add: st3_def p) (simp add: st1_def)
  from Cons.IH [OF wf3 cap3 ne3 tod3]
  obtain st' ns ts tms where
    ih: "main_loop lib cfg trials st3 = Some (Inr st')"
      "length ns = length trials" "\<forall>n \<in> set ns. 0 < n \<and> n \<le> trial_length cfg"
      "never_done lib \<longrightarrow> (\<forall>n \<in> set ns. n = trial_length cfg)"
      "length ts = sum_list ns"
      "env_steps (calls st') = env_steps (calls st3) @ ts"
      "replay_buffer st' = add_all (replay_buffer st3) ts"
      "list_all training_on_data (calls st')"
      "length (all_rewards st') = length (all_rewards st3) + length trials"
      "length tms = length trials" "\<forall>x \<in> set tms. snd x \<noteq> []"
      "agent st' = agent_trials lib (agent st3) tms"
    by (elim exE conjE) (rule that)
  have es3: "env_steps (calls st3) = env_steps (calls st) @ ts1"
    by (simp add: cs3 env_steps_append env_steps_epoch_calls env_steps_StepEnv)
  have ar3: "length (all_rewards st3) = Suc (length (all_rewards st))"
    by (simp add: st3_def p) (simp add: st1_def)
  show ?case
    using step ih p(1,2,5) es3 ar3 rb3 ag3
    by (intro exI [of _ st'] exI [of _ "length ts1 # ns"] exI [of _ "ts1 @ ts"]
        exI [of _ "(dynamics_model st2, obs # map tr_next_obs (butlast ts1)) # tms"])
      (simp add: add_all_append)
qed

lemma pets_example_result:
  fixes lib :: "('e, 'g, 'm, 'obs, 'act) library"
  assumes T: "0 < trial_length cfg" and cap: "0 < cap"
  shows "\<exists>st ns. pets_example lib cfg cap e0 g0 m0 = Some (Inr st) \<and>
     length ns = num_trials cfg \<and> (\<forall>n \<in> set ns. 0 < n \<and> n \<le> trial_length cfg) \<and>
     (never_done lib \<longrightarrow> (\<forall>n \<in> set ns. n = trial_length cfg)) \<and>
     length (env_steps (calls st)) = trial_length cfg + sum_list ns \<and>
     replay_buffer st = add_all (create_replay_buffer cap) (env_steps (calls st)) \<and>
     list_all training_on_data (calls st) \<and>
     length (all_rewards st) = Suc (num_trials cfg) \<and>
     (\<exists>tms. length tms = num_trials cfg \<and> (\<forall>x \<in> set tms. snd x \<noteq> []) \<and>
        agent st = agent_trials lib g0 tms)"
proof -
  let ?rb0 = "create_replay_buffer cap :: ('obs, 'act) transition ReplayBuffer"
  obtain obs0 e1 where r: "env_reset lib e0 = (obs0, e1)"
    by (cases "env_reset lib e0")
  from rollout_steps_result [of lib "trial_length cfg" "trial_length cfg" 0 obs0 e1 ?rb0 "[EnvReset]"]
  obtain e2 cs ts0 where
    ro: "rollout_steps lib (trial_length cfg) (trial_length cfg) 0 obs0 (e1, ?rb0, [EnvReset])
          = (e2, add_all ?rb0 ts0, cs)"
    and p0: "length ts0 = trial_length cfg" "env_steps cs = ts0" "list_all training_on_data cs"
    by (elim exE conjE) simp
  define st0 :: "('e, 'g, 'm, 'obs, 'act) pets_state" where
    "st0 = \<lparr>env = e2, agent = g0, dynamics_model = m0, replay_buffer = add_all ?rb0 ts0,
             train_losses = [], val_scores = [], all_rewards = [0], calls = cs\<rparr>"
  have start: "pets_example lib cfg cap e0 g0 m0 = main_loop lib cfg [0..<num_trials cfg] st0"
    using T r ro by (simp add: pets_example_def rollout_agent_trajectories_def st0_def)
  have c0: "capacity ?rb0 = cap" "num_stored ?rb0 = 0"
    by (simp_all add: create_replay_buffer_def)
  have wf: "rb_wf (replay_buffer st0)"
    by (simp add: st0_def rb_wf_add_all rb_wf_create)
  have cp: "0 < capacity (replay_buffer st0)"
    using cap by (simp add: st0_def capacity_add_all c0)
  have ne: "0 < num_stored (replay_buffer st0)"
    using cap T by (simp add: st0_def num_stored_add_all c0 p0)
  have tod: "list_all training_on_data (calls st0)"
    using p0 by (simp add: st0_def)
  from main_loop_result [OF T wf cp ne tod, of lib "[0..<num_trials cfg]"]
  obtain st ns ts tms where
    ml: "main_loop lib cfg [0..<num_trials cfg] st0 = Some (Inr st)"
      "length ns = length [0..<num_trials cfg]" "\<forall>n \<in> set ns. 0 < n \<and> n \<le> trial_length cfg"
      "never_done lib \<longrightarrow> (\<forall>n \<in> set ns. n = trial_length cfg)"
      "length ts = sum_list ns"
      "env_steps (calls st) = env_steps (calls st0) @ ts"
      "replay_buffer st = add_all (replay_buffer st0) ts"
      "list_all training_on_data (calls st)"
      "length (all_rewards st) = length (all_rewards st0) + length [0..<num_trials cfg]"
      "length tms = length [0..<num_trials cfg]" "\<forall>x \<in> set tms. snd x \<noteq> []"
      "agent st = agent_trials lib (agent st0) tms"
    by (elim exE conjE) (rule that)
  have "env_steps (calls st) = ts0 @ ts"
    using ml(6) p0 by (simp add: st0_def)
  moreover have "replay_buffer st = add_all ?rb0 (ts0 @ ts)"
    using ml(7) by (simp add: st0_def add_all_append)
  moreover have "\<exists>tms. length tms = num_trials cfg \<and> (\<forall>x \<in> set tms. snd x \<noteq> []) \<and>
        agent st = agent_trials lib g0 tms"
    using ml(10,11,12) by (intro exI [of _ tms]) (simp add: st0_def)
  ultimately show ?thesis
    using start ml(1-9) p0
    by (intro exI [of _ st] exI [of _ ns]) (simp add: st0_def)
qed

lemma sum_list_const: "(\<forall>n \<in> set ns. n = c) \<Longrightarrow> sum_list ns = length ns * c"
  by (induction ns) simp_all

lemma never_done_idle: "never_done idle_library"
  by (simp add: never_done_def idle_library_def)

lemma one_transition_state_stored: "0 < num_stored (replay_buffer one_transition_state)"
  by (simp add: one_transition_state_def add_def create_replay_buffer_def)

lemma pets_example_never_done:
  assumes nd: "never_done lib" and T: "0 < trial_length cfg" and cap: "0 < cap"
  shows "\<exists>st. pets_example lib cfg cap e0 g0 m0 = Some (Inr st) \<and>
     length (env_steps (calls st)) = trial_length cfg + num_trials cfg * trial_length cfg \<and>
     num_stored (replay_buffer st) = min (trial_length cfg + num_trials cfg * trial_length cfg) cap \<and>
     get_all (replay_buffer st)
       = drop (trial_length cfg + num_trials cfg * trial_length cfg - cap) (env_steps (calls st))"
proof -
  from pets_example_result [OF T cap, of lib e0 g0 m0]
  obtain st ns where
    r: "pets_example lib cfg cap e0 g0 m0 = Some (Inr st)"
      "length ns = num_trials cfg"
      "never_done lib \<longrightarrow> (\<forall>n \<in> set ns. n = trial_length cfg)"
      "length (env_steps (calls st)) = trial_length cfg + sum_list ns"
      "replay_buffer st = add_all (create_replay_buffer cap) (env_steps (calls st))"
    by (elim exE conjE) (rule that)
  from r(3) nd have "sum_list ns = length ns * trial_length cfg"
    by (intro sum_list_const) simp
  with r(2,4) have len: "length (env_steps (calls st))
      = trial_length cfg + num_trials cfg * trial_length cfg"
    by simp
  from add_all_from_empty [of cap "env_steps (calls st)"] r(5) len
  have "num_stored (replay_buffer st) = min (trial_length cfg + num_trials cfg * trial_length cfg) cap"
    "get_all (replay_buffer st)
       = drop (trial_length cfg + num_trials cfg * trial_length cfg - cap) (env_steps (calls st))"
    by simp_all
  with r(1) len show ?thesis by blast
qed

subsection \<open>One trial\<close>

text \<open>
  Claim C6. With a positive \<open>trial_length\<close>, every trial that the main loop starts
  (\<open>done = False\<close>, \<open>steps_trial = 0\<close>) on a non-empty buffer ends, and it ends exactly
  when the environment reports termination or the step counter reaches \<open>trial_length\<close>:
  it takes at least one and at most \<open>trial_length\<close> environment steps, the counter it
  returns is the number of steps taken, no step before the last one reported
  termination, and the last one did unless the counter had reached \<open>trial_length\<close>.
  On an empty buffer the trial stops before its first step with \<open>EmptyBufferError\<close>.
\<close>

theorem trial_termination:
  assumes "0 < trial_length cfg"
  shows "(num_stored (replay_buffer st) = 0 \<longrightarrow>
            trial_loop lib cfg (st, obs, False, 0, 0) = Some (Inl EmptyBufferError)) \<and>
         (0 < num_stored (replay_buffer st) \<longrightarrow>
            (\<exists>st' total_reward ts.
               trial_loop lib cfg (st, obs, False, 0, 0)
                 = Some (Inr (st', total_reward, length ts)) \<and>
               env_steps (calls st') = env_steps (calls st) @ ts \<and>
               0 < length ts \<and> length ts \<le> trial_length cfg \<and>
               (\<forall>t \<in> set (butlast ts). \<not> tr_done t) \<and>
               (tr_done (last ts) \<or> length ts = trial_length cfg)))"
proof (intro conjI impI)
  assume "num_stored (replay_buffer st) = 0"
  then show "trial_loop lib cfg (st, obs, False, 0, 0) = Some (Inl EmptyBufferError)"
    by (rule trial_loop_empty)
next
  assume ne: "0 < num_stored (replay_buffer st)"
  from trial_loop_result [OF assms ne, of lib obs 0]
  obtain st' k ts where
    r: "trial_loop lib cfg (st, obs, False, 0, 0)
          = Some (Inr (st', 0 + sum_list (map tr_reward ts), length ts))"
    and p: "ts \<noteq> []" "length ts \<le> trial_length cfg"
      "calls st' = calls st @ [UpdateNormalizer (get_all (replay_buffer st)),
                             GetBufferIterators (num_stored (replay_buffer st))]
                  @ epoch_calls 0 k @ map StepEnv ts"
      "\<forall>t \<in> set (butlast ts). \<not> tr_done t"
      "tr_done (last ts) \<or> length ts = trial_length cfg"
    by (elim exE conjE) (rule that)
  have "env_steps (calls st') = env_steps (calls st) @ ts"
    by (simp add: p(3) env_steps_append env_steps_epoch_calls env_steps_StepEnv)
  with r p show "\<exists>st' total_reward ts.
               trial_loop lib cfg (st, obs, False, 0, 0)
                 = Some (Inr (st', total_reward, length ts)) \<and>
               env_steps (calls st') = env_steps (calls st) @ ts \<and>
               0 < length ts \<and> length ts \<le> trial_length cfg \<and>
               (\<forall>t \<in> set (butlast ts). \<not> tr_done t) \<and>
               (tr_done (last ts) \<or> length ts = trial_length cfg)"
    by (intro exI [of _ st'] exI [of _ "0 + sum_list (map tr_reward ts)"] exI [of _ ts]) simp
qed

theorem trial_termination_witness:
  "0 < trial_length notebook_config \<and> 0 < num_stored (replay_buffer one_transition_state) \<and>
   (\<exists>st' total_reward ts.
      trial_loop idle_library notebook_config (one_transition_state, (), False, 0, 0)
        = Some (Inr (st', total_reward, length ts)) \<and>
      env_steps (calls st') = env_steps (calls one_transition_state) @ ts \<and>
      0 < length ts \<and> length ts \<le> trial_length notebook_config \<and>
      (\<forall>t \<in> set (butlast ts). \<not> tr_done t) \<and>
      (tr_done (last ts) \<or> length ts = trial_length notebook_config))"
proof -
  have T: "0 < trial_length notebook_config" by (simp add: notebook_config_def)
  have ne: "0 < num_stored (replay_buffer one_transition_state)"
    by (simp add: one_transition_state_def add_def create_replay_buffer_def)
  from T ne trial_termination [OF T, of one_transition_state idle_library "()", THEN conjunct2,
      THEN mp, OF ne]
  show ?thesis by (intro conjI)
qed

text \<open>
  The positivity of \<open>trial_length\<close> is needed: the counter is tested after it has been
  incremented, so with \<open>trial_length = 0\<close> the test never succeeds, and a trial in an
  environment that never reports termination does not return.
\<close>

lemma trial_loop_zero_length_aux:
  fixes lib :: "('e, 'g, 'm, 'obs, 'act) library"
  assumes r: "trial_loop lib cfg x = Some y"
  shows "never_done lib \<longrightarrow> trial_length cfg = 0 \<longrightarrow> \<not> fst (snd (snd x)) \<longrightarrow> (\<forall>res. y \<noteq> Inr res)"
proof (rule trial_loop.raw_induct [where xa = "((lib, cfg), x)" and y = y
        and P = "\<lambda>lib cfg x y. never_done lib \<longrightarrow> trial_length cfg = 0 \<longrightarrow> \<not> fst (snd (snd x)) \<longrightarrow> (\<forall>res. y \<noteq> Inr res)",
        unfolded prod.case, OF _ r])
  fix tl :: "('e, 'g, 'm, 'obs, 'act) library \<Rightarrow> config \<Rightarrow>
        ('e, 'g, 'm, 'obs, 'act) pets_state \<times> 'obs \<times> bool \<times> real \<times> nat \<Rightarrow>
        (error + ('e, 'g, 'm, 'obs, 'act) pets_state \<times> real \<times> nat) option"
    and lib' :: "('e, 'g, 'm, 'obs, 'act) library" and cfg' :: config
    and x' :: "('e, 'g, 'm, 'obs, 'act) pets_state \<times> 'obs \<times> bool \<times> real \<times> nat"
    and y' :: "error + ('e, 'g, 'm, 'obs, 'act) pets_state \<times> real \<times> nat"
  assume ih: "\<And>cfg x b y. tl cfg x b = Some y \<Longrightarrow>
            never_done cfg \<longrightarrow> trial_length x = 0 \<longrightarrow> \<not> fst (snd (snd b)) \<longrightarrow> (\<forall>res. y \<noteq> Inr res)"
    and body: "(case x' of
          (st, obs, done, total_reward, steps_trial) \<Rightarrow>
            if done then Some (Inr (st, total_reward, steps_trial))
            else case if steps_trial = 0 then model_training lib' cfg' st
                      else Inr st of
                 Inl err \<Rightarrow> Some (Inl err)
                 | Inr st1 \<Rightarrow>
                     case step_env_and_add_to_buffer lib' obs st1 of
                     ((next_obs, reward, done'), st2) \<Rightarrow>
                       if steps_trial + 1 = trial_length cfg'
                       then Some (Inr (st2, total_reward + reward, steps_trial + 1))
                       else tl lib' cfg'
                             (st2, next_obs, done', total_reward + reward, steps_trial + 1)) =
         Some y'"
  obtain st obs dn tr k where x: "x' = (st, obs, dn, tr, k)" by (cases x')
  show "never_done lib' \<longrightarrow> trial_length cfg' = 0 \<longrightarrow> \<not> fst (snd (snd x')) \<longrightarrow> (\<forall>res. y' \<noteq> Inr res)"
  proof (intro impI allI)
    fix res'
    assume nd': "never_done lib'" and T': "trial_length cfg' = 0" and "\<not> fst (snd (snd x'))"
    then have dn: "\<not> dn" by (simp add: x)
    show "y' \<noteq> Inr res'"
    proof (cases "if k = 0 then model_training lib' cfg' st else Inr st")
      case (Inl err)
      with body dn show ?thesis by (auto simp: x)
    next
      case (Inr st1)
      from step_env_and_add_to_buffer_effect [of lib' obs st1]
      obtain t st2 where c: "calls st2 = calls st1 @ [StepEnv t]"
        and s: "step_env_and_add_to_buffer lib' obs st1
            = ((tr_next_obs t, tr_reward t, tr_done t), st2)"
        and nt: "never_done lib' \<longrightarrow> \<not> tr_done t"
        by (elim exE conjE) (rule that)
      from body dn Inr s T'
      have "tl lib' cfg' (st2, tr_next_obs t, tr_done t, tr + tr_reward t, k + 1) = Some y'"
        by (simp add: x)
      from ih [OF this] nd' T' nt have "\<forall>res. y' \<noteq> Inr res"
        by simp
      then show ?thesis by (rule spec)
    qed
  qed
qed

lemma trial_loop_zero_length_never_returns:
  fixes lib :: "('e, 'g, 'm, 'obs, 'act) library"
  assumes "never_done lib" and "trial_length cfg = 0"
  shows "trial_loop lib cfg (st, obs, False, total_reward, steps_trial) \<noteq> Some (Inr res)"
  using trial_loop_zero_length_aux [of lib cfg "(st, obs, False, total_reward, steps_trial)" "Inr res"] assms
  by auto

text \<open>
  Claim C7. In every trial (positive \<open>trial_length\<close>, non-empty buffer) the calls the
  program makes are, in this order: one refit of the normalizer on all buffer contents,
  the construction of the iterators, \<open>k\<close> training epochs each followed by its callback,
  and then environment steps only. So the model is trained at the first step of the
  trial and at no other. The trainer is run on the model with the refitted normalizer;
  it runs \<open>k \<le> num_epochs\<close> epochs and stops short of \<open>num_epochs\<close> only when at least
  \<open>patience\<close> epochs have passed since the last improvement (so after more than
  \<open>patience\<close> epochs); the callback of cell 18 has run once per epoch: both of its lists
  have grown by \<open>k\<close>.
\<close>

theorem training_schedule:
  assumes "0 < trial_length cfg" and "0 < num_stored (replay_buffer st)"
  shows "\<exists>st' total_reward ts k dtr dval m' best since acc'.
     trial_loop lib cfg (st, obs, False, 0, 0) = Some (Inr (st', total_reward, length ts)) \<and>
     calls st' = calls st @ [UpdateNormalizer (get_all (replay_buffer st)),
                             GetBufferIterators (num_stored (replay_buffer st))]
                  @ epoch_calls 0 k @ map StepEnv ts \<and>
     ts \<noteq> [] \<and>
     get_basic_buffer_iterators lib (replay_buffer st) (model_batch_size cfg)
       (validation_ratio cfg) = Inr (dtr, dval) \<and>
     train_epochs lib train_callback dtr dval (patience cfg) (num_epochs cfg) 0
       (update_normalizer lib (dynamics_model st) (get_all (replay_buffer st)), None, 0,
        (train_losses st, val_scores st),
        calls st @ [UpdateNormalizer (get_all (replay_buffer st)),
                    GetBufferIterators (num_stored (replay_buffer st))])
       = (m', best, since, acc',
          calls st @ [UpdateNormalizer (get_all (replay_buffer st)),
                      GetBufferIterators (num_stored (replay_buffer st))] @ epoch_calls 0 k) \<and>
     k \<le> num_epochs cfg \<and>
     (k < num_epochs cfg \<longrightarrow> patience cfg \<le> since \<and> patience cfg < k) \<and>
     dynamics_model st' = m' \<and> train_losses st' = fst acc' \<and> val_scores st' = snd acc' \<and>
     length (train_losses st') = length (train_losses st) + k \<and>
     length (val_scores st') = length (val_scores st) + k"
proof -
  from trial_loop_result [OF assms, of lib obs 0]
  obtain st' k ts dtr dval m' best since acc' where
    r: "trial_loop lib cfg (st, obs, False, 0, 0)
          = Some (Inr (st', 0 + sum_list (map tr_reward ts), length ts))"
    and p: "ts \<noteq> []"
      "calls st' = calls st @ [UpdateNormalizer (get_all (replay_buffer st)),
                             GetBufferIterators (num_stored (replay_buffer st))]
                  @ epoch_calls 0 k @ map StepEnv ts"
      "k \<le> num_epochs cfg"
      "length (train_losses st') = length (train_losses st) + k"
      "length (val_scores st') = length (val_scores st) + k"
      "get_basic_buffer_iterators lib (replay_buffer st) (model_batch_size cfg)
         (validation_ratio cfg) = Inr (dtr, dval)"
      "train_epochs lib train_callback dtr dval (patience cfg) (num_epochs cfg) 0
       (update_normalizer lib (dynamics_model st) (get_all (replay_buffer st)), None, 0,
        (train_losses st, val_scores st),
        calls st @ [UpdateNormalizer (get_all (replay_buffer st)),
                    GetBufferIterators (num_stored (replay_buffer st))])
       = (m', best, since, acc',
          calls st @ [UpdateNormalizer (get_all (replay_buffer st)),
                      GetBufferIterators (num_stored (replay_buffer st))] @ epoch_calls 0 k)"
      "k < num_epochs cfg \<longrightarrow> patience cfg \<le> since \<and> patience cfg < k"
      "dynamics_model st' = m'" "train_losses st' = fst acc'" "val_scores st' = snd acc'"
    by (elim exE conjE) (rule that)
  from r p show ?thesis
    by (intro exI [of _ st'] exI [of _ "0 + sum_list (map tr_reward ts)"] exI [of _ ts]
        exI [of _ k] exI [of _ dtr] exI [of _ dval] exI [of _ m'] exI [of _ best]
        exI [of _ since] exI [of _ acc']) simp
qed

theorem training_schedule_witness:
  "0 < trial_length notebook_config \<and> 0 < num_stored (replay_buffer one_transition_state) \<and>
   (\<exists>st' total_reward ts k.
      trial_loop idle_library notebook_config (one_transition_state, (), False, 0, 0)
        = Some (Inr (st', total_reward, length ts)) \<and>
      calls st' = calls one_transition_state
        @ [UpdateNormalizer (get_all (replay_buffer one_transition_state)),
           GetBufferIterators (num_stored (replay_buffer one_transition_state))]
        @ epoch_calls 0 k @ map StepEnv ts \<and>
      ts \<noteq> [] \<and> k = 50 \<and> length (train_losses st') = 50)"
proof -
  have T: "0 < trial_length notebook_config" by (simp add: notebook_config_def)
  have ne: "0 < num_stored (replay_buffer one_transition_state)"
    by (simp add: one_transition_state_def add_def create_replay_buffer_def)
  from training_schedule [OF T ne, of idle_library "()"]
  obtain st' total_reward ts k since where
    r: "trial_loop idle_library notebook_config (one_transition_state, (), False, 0, 0)
        = Some (Inr (st', total_reward, length ts))"
      "calls st' = calls one_transition_state
        @ [UpdateNormalizer (get_all (replay_buffer one_transition_state)),
           GetBufferIterators (num_stored (replay_buffer one_transition_state))]
        @ epoch_calls 0 k @ map StepEnv ts"
      "ts \<noteq> []"
    and k: "k \<le> num_epochs notebook_config"
      "k < num_epochs notebook_config \<longrightarrow>
         patience notebook_config \<le> since \<and> patience notebook_config < k"
      "length (train_losses st') = length (train_losses one_transition_state) + k"
    by (elim exE conjE) (rule that)
  from k have "k = 50" "length (train_losses st') = 50"
    by (auto simp: notebook_config_def one_transition_state_def)
  with r T ne show ?thesis
    by (intro conjI exI [of _ st'] exI [of _ total_reward] exI [of _ ts] exI [of _ k]) simp_all
qed

subsection \<open>The whole run\<close>

text \<open>
  Claim C1, as amended. The three cells of the run (exploration, agent, main loop) with
  the notebook's constants, 10 trials of length 200, end without an exception whatever
  the agent is. When no trial is cut short by the environment the program has by then
  recorded 2200 transitions, the 200 of the initial exploration and the 10 times 200 of
  the trials, and the buffer holds \<open>min 2200 capacity\<close> of them: 1000 for a buffer of
  capacity 1000, not 2000.
\<close>

theorem end_to_end_count_is_capacity:
  assumes "never_done lib" and "0 < cap"
  shows "\<exists>st. pets_example lib notebook_config cap e0 g0 m0 = Some (Inr st) \<and>
     length (env_steps (calls st)) = 200 + 10 * 200 \<and>
     num_stored (replay_buffer st) = min 2200 cap \<and>
     (cap = 1000 \<longrightarrow> num_stored (replay_buffer st) = 1000)"
proof -
  have T: "0 < trial_length notebook_config" by (simp add: notebook_config_def)
  from pets_example_never_done [OF assms(1) T assms(2), of e0 g0 m0]
  show ?thesis by (auto simp: notebook_config_def)
qed

theorem end_to_end_count_is_capacity_witness:
  "never_done idle_library \<and> (0::nat) < 1000 \<and>
   (\<exists>st. pets_example idle_library notebook_config 1000 () () () = Some (Inr st) \<and>
      length (env_steps (calls st)) = 2200 \<and> num_stored (replay_buffer st) = 1000)"
proof -
  have nd: "never_done idle_library" by (simp add: never_done_def idle_library_def)
  have c: "(0::nat) < 1000" by simp
  from end_to_end_count_is_capacity [OF nd c, of "()" "()" "()"] nd show ?thesis
    by auto
qed

text \<open>
  The count 2000 of the claim as it was stated fails on the library whose environment
  never reports termination, with capacity 1000.
\<close>

theorem end_to_end_count_2000_counterexample:
  "never_done idle_library \<and>
   (\<exists>st. pets_example idle_library notebook_config 1000 () () () = Some (Inr st) \<and>
         num_stored (replay_buffer st) = 1000) \<and>
   \<not> (\<exists>st. pets_example idle_library notebook_config 1000 () () () = Some (Inr st) \<and>
          num_stored (replay_buffer st) = 2000)"
proof -
  have T: "0 < trial_length notebook_config" by (simp add: notebook_config_def)
  have c: "(0::nat) < 1000" by simp
  from pets_example_never_done [OF never_done_idle T c, of "()" "()" "()"]
  obtain st where "pets_example idle_library notebook_config 1000 () () () = Some (Inr st)"
    "num_stored (replay_buffer st) = 1000"
    by (auto simp: notebook_config_def)
  then show ?thesis using never_done_idle by auto
qed

text \<open>
  Claim C10. With a positive \<open>trial_length\<close> and a buffer of positive capacity, the
  exploration of cell 13 takes \<open>trial_length\<close> environment steps and adds each
  transition to the fresh buffer, which then holds \<open>min trial_length capacity\<close>
  transitions, at least one (200 with the notebook's constants and a capacity of at
  least 200). The run that follows ends without an exception: every call of the
  normalizer and of the iterators in it saw a non-empty buffer, and the result is never
  \<open>EmptyBufferError\<close>.
\<close>

theorem exploration_makes_sampling_safe:
  fixes lib :: "('e, 'g, 'm, 'obs, 'act) library"
  assumes "0 < trial_length cfg" and "0 < cap"
  shows "(\<exists>e1 rb cs.
            rollout_agent_trajectories lib (trial_length cfg) (trial_length cfg)
              (e0, create_replay_buffer cap) = (e1, rb, cs) \<and>
            length (env_steps cs) = trial_length cfg \<and>
            rb = add_all (create_replay_buffer cap) (env_steps cs) \<and>
            num_stored rb = min (trial_length cfg) cap \<and> 0 < num_stored rb) \<and>
         (\<exists>st. pets_example lib cfg cap e0 g0 m0 = Some (Inr st) \<and>
               list_all training_on_data (calls st)) \<and>
         pets_example lib cfg cap e0 g0 m0 \<noteq> Some (Inl EmptyBufferError)"
proof -
  let ?rb0 = "create_replay_buffer cap :: ('obs, 'act) transition ReplayBuffer"
  obtain obs0 e1 where r: "env_reset lib e0 = (obs0, e1)"
    by (cases "env_reset lib e0")
  from rollout_steps_result [of lib "trial_length cfg" "trial_length cfg" 0 obs0 e1 ?rb0 "[EnvReset]"]
  obtain e2 cs ts0 where
    ro: "rollout_steps lib (trial_length cfg) (trial_length cfg) 0 obs0 (e1, ?rb0, [EnvReset])
          = (e2, add_all ?rb0 ts0, cs)"
    and p0: "length ts0 = trial_length cfg" "env_steps cs = ts0"
    by (elim exE conjE) simp
  have ra: "rollout_agent_trajectories lib (trial_length cfg) (trial_length cfg) (e0, ?rb0)
      = (e2, add_all ?rb0 ts0, cs)"
    using assms(1) r ro by (simp add: rollout_agent_trajectories_def)
  have n: "num_stored (add_all ?rb0 ts0) = min (trial_length cfg) cap"
    using add_all_from_empty [of cap ts0] p0 by simp
  have first: "\<exists>e1 rb cs.
            rollout_agent_trajectories lib (trial_length cfg) (trial_length cfg)
              (e0, ?rb0) = (e1, rb, cs) \<and>
            length (env_steps cs) = trial_length cfg \<and>
            rb = add_all ?rb0 (env_steps cs) \<and>
            num_stored rb = min (trial_length cfg) cap \<and> 0 < num_stored rb"
    using ra n p0 assms
    by (intro exI [of _ e2] exI [of _ "add_all ?rb0 ts0"] exI [of _ cs]) simp
  from pets_example_result [OF assms, of lib e0 g0 m0]
  obtain st where s: "pets_example lib cfg cap e0 g0 m0 = Some (Inr st)"
    "list_all training_on_data (calls st)"
    by (elim exE conjE) (rule that)
  from first s show ?thesis by auto
qed

theorem exploration_makes_sampling_safe_witness:
  "0 < trial_length notebook_config \<and> (0::nat) < 1000 \<and>
   (\<exists>e1 rb cs.
       rollout_agent_trajectories idle_library (trial_length notebook_config)
         (trial_length notebook_config) ((), create_replay_buffer 1000) = (e1, rb, cs) \<and>
       length (env_steps cs) = 200 \<and> num_stored rb = 200) \<and>
   (\<exists>st. pets_example idle_library notebook_config 1000 () () () = Some (Inr st) \<and>
         list_all training_on_data (calls st))"
proof -
  have T: "0 < trial_length notebook_config" by (simp add: notebook_config_def)
  have c: "(0::nat) < 1000" by simp
  from exploration_makes_sampling_safe [OF T c, of idle_library "()" "()" "()"] T
  show ?thesis by (auto simp: notebook_config_def)
qed

subsection \<open>The warm start of the planner\<close>

lemma warm_started_append:
  "warm_started cfg prev (xs @ ys)
     = (warm_started cfg prev xs \<and> warm_started cfg (solution_after prev xs) ys)"
  by (induction cfg prev xs rule: warm_started.induct) simp_all

lemma solution_after_append:
  "solution_after prev (xs @ ys) = solution_after (solution_after prev xs) ys"
  by (induction prev xs rule: solution_after.induct) simp_all

lemma plan_effect:
  "\<exists>best g. opt m obs (warm_start cfg (previous_solution st)) (generator st) = (best, g) \<and>
     plan cfg opt m obs st =
       (best, st\<lparr>previous_solution := Some best, generator := g,
                 plan_log := plan_log st @ [Planned (warm_start cfg (previous_solution st)) best]\<rparr>)"
  by (cases "opt m obs (warm_start cfg (previous_solution st)) (generator st)")
    (simp add: plan_def Let_def)

lemma act_effect:
  "\<exists>evs. plan_log (snd (trajectory_optimizer_act cfg opt m st obs)) = plan_log st @ evs \<and>
     warm_started cfg (previous_solution st) evs \<and> WarmStartCleared \<notin> set evs \<and>
     previous_solution (snd (trajectory_optimizer_act cfg opt m st obs))
       = solution_after (previous_solution st) evs \<and>
     (actions_to_use st = [] \<longrightarrow> evs \<noteq> [])"
proof (cases "actions_to_use st")
  case (Cons a rest)
  then show ?thesis
    by (intro exI [of _ "[]"]) (simp add: trajectory_optimizer_act_def)
next
  case Nil
  from plan_effect [of opt m obs cfg st]
  obtain best g where
    p: "plan cfg opt m obs st =
       (best, st\<lparr>previous_solution := Some best, generator := g,
                 plan_log := plan_log st @ [Planned (warm_start cfg (previous_solution st)) best]\<rparr>)"
    by blast
  show ?thesis
    using Nil p
    by (intro exI [of _ "[Planned (warm_start cfg (previous_solution st)) best]"])
      (simp add: trajectory_optimizer_act_def split: list.splits)
qed

lemma agent_acts_effect:
  assumes act: "agent_act lib = trajectory_optimizer_act cfg opt"
  shows "\<exists>evs. plan_log (agent_acts lib m g os) = plan_log g @ evs \<and>
     warm_started cfg (previous_solution g) evs \<and> WarmStartCleared \<notin> set evs \<and>
     previous_solution (agent_acts lib m g os) = solution_after (previous_solution g) evs \<and>
     (actions_to_use g = [] \<and> os \<noteq> [] \<longrightarrow> evs \<noteq> [])"
proof (induction os arbitrary: g)
  case Nil
  show ?case by (intro exI [of _ "[]"]) simp
next
  case (Cons obs os)
  let ?g1 = "snd (trajectory_optimizer_act cfg opt m g obs)"
  from act_effect [of cfg opt m g obs]
  obtain evs1 where e1: "plan_log ?g1 = plan_log g @ evs1"
    "warm_started cfg (previous_solution g) evs1" "WarmStartCleared \<notin> set evs1"
    "previous_solution ?g1 = solution_after (previous_solution g) evs1"
    "actions_to_use g = [] \<longrightarrow> evs1 \<noteq> []"
    by blast
  from Cons.IH [of ?g1]
  obtain evs2 where e2: "plan_log (agent_acts lib m ?g1 os) = plan_log ?g1 @ evs2"
    "warm_started cfg (previous_solution ?g1) evs2" "WarmStartCleared \<notin> set evs2"
    "previous_solution (agent_acts lib m ?g1 os) = solution_after (previous_solution ?g1) evs2"
    by blast
  show ?case
    using e1 e2
    by (intro exI [of _ "evs1 @ evs2"])
      (simp add: act warm_started_append solution_after_append)
qed

lemma agent_trials_effect:
  assumes act: "agent_act lib = trajectory_optimizer_act cfg opt"
    and reset: "agent_reset lib = trajectory_optimizer_reset"
    and ne: "\<forall>x \<in> set tms. snd x \<noteq> []"
  shows "\<exists>tps. plan_log (agent_trials lib g tms)
        = plan_log g @ concat (map (\<lambda>ps. WarmStartCleared # ps) tps) \<and>
     length tps = length tms \<and>
     (\<forall>ps \<in> set tps. ps \<noteq> [] \<and> WarmStartCleared \<notin> set ps \<and> warm_started cfg None ps) \<and>
     warm_started cfg (previous_solution g) (concat (map (\<lambda>ps. WarmStartCleared # ps) tps))"
  using ne
proof (induction tms arbitrary: g)
  case Nil
  show ?case by (intro exI [of _ "[]"]) simp
next
  case (Cons x tms)
  obtain m os where x: "x = (m, os)" by (cases x)
  with Cons.prems have os: "os \<noteq> []" by simp
  let ?g0 = "trajectory_optimizer_reset g"
  let ?g1 = "agent_acts lib m ?g0 os"
  have r: "plan_log ?g0 = plan_log g @ [WarmStartCleared]" "previous_solution ?g0 = None"
    "actions_to_use ?g0 = []"
    by (simp_all add: trajectory_optimizer_reset_def)
  from agent_acts_effect [OF act, of m ?g0 os] r os
  obtain ps where ps: "plan_log ?g1 = plan_log g @ [WarmStartCleared] @ ps"
    "warm_started cfg None ps" "WarmStartCleared \<notin> set ps" "ps \<noteq> []"
    by auto
  from Cons.prems have "\<forall>x \<in> set tms. snd x \<noteq> []" by simp
  from Cons.IH [OF this, of ?g1]
  obtain tps where ih: "plan_log (agent_trials lib ?g1 tms)
        = plan_log ?g1 @ concat (map (\<lambda>ps. WarmStartCleared # ps) tps)"
     "length tps = length tms"
     "\<forall>ps \<in> set tps. ps \<noteq> [] \<and> WarmStartCleared \<notin> set ps \<and> warm_started cfg None ps"
     "warm_started cfg (previous_solution ?g1) (concat (map (\<lambda>ps. WarmStartCleared # ps) tps))"
    by blast
  have tail: "warm_started cfg prev (concat (map (\<lambda>ps. WarmStartCleared # ps) tps))" for prev
    using ih(3) by (induction tps arbitrary: prev) (simp_all add: warm_started_append)
  show ?case
    using ps ih tail
    by (intro exI [of _ "ps # tps"]) (simp add: x reset warm_started_append)
qed


lemma agent_calls_effect:
  "\<exists>evs. plan_log (agent_calls cfg opt cs g) = plan_log g @ evs \<and>
     warm_started cfg (previous_solution g) evs"
proof (induction cfg opt cs g rule: agent_calls.induct)
  case (1 cfg opt st)
  show ?case by (intro exI [of _ "[]"]) simp
next
  case (2 cfg opt m obs cs st)
  let ?g1 = "snd (trajectory_optimizer_act cfg opt m st obs)"
  from act_effect [of cfg opt m st obs]
  obtain evs1 where e1: "plan_log ?g1 = plan_log st @ evs1"
    "warm_started cfg (previous_solution st) evs1"
    "previous_solution ?g1 = solution_after (previous_solution st) evs1"
    by blast
  from "2.IH" obtain evs2 where e2: "plan_log (agent_calls cfg opt cs ?g1) = plan_log ?g1 @ evs2"
    "warm_started cfg (previous_solution ?g1) evs2"
    by blast
  show ?case using e1 e2
    by (intro exI [of _ "evs1 @ evs2"]) (simp add: warm_started_append)
next
  case (3 cfg opt cs st)
  let ?g1 = "trajectory_optimizer_reset st"
  from "3.IH" obtain evs2 where e2: "plan_log (agent_calls cfg opt cs ?g1) = plan_log ?g1 @ evs2"
    "warm_started cfg (previous_solution ?g1) evs2"
    by blast
  show ?case using e2
    by (intro exI [of _ "WarmStartCleared # evs2"]) (simp add: trajectory_optimizer_reset_def)
qed

text \<open>
  Claim C8. A planning call that follows another one starts the search from the
  sequence the earlier call returned, shifted left by one step (the last entry
  duplicated or set to the default action), so its result is the search's answer to the
  earlier result; in every sequence of \<open>act\<close> and \<open>reset\<close> calls each planning call is
  warm-started in this way from the planning call before it, and from the default
  sequence when a reset lies in between. A planning call right after a reset starts
  from the default sequence whatever was planned before. In the run of the notebook
  with this agent, the agent's planning log consists, for each of the \<open>num_trials\<close>
  trials, of one clearing of the warm start followed by at least one planning call, the
  first from the default sequence and each later one from the shifted result of its
  predecessor in the same trial.
\<close>

theorem warm_start_between_planning_calls:
  fixes lib :: "('e, ('act, 'r) agent_state, 'm, 'obs, 'act) library"
  assumes "agent_act lib = trajectory_optimizer_act acfg opt"
    and "agent_reset lib = trajectory_optimizer_reset"
    and "0 < trial_length cfg" and "0 < cap"
  shows "fst (plan acfg opt m2 obs2 (snd (plan acfg opt m1 obs1 g)))
           = fst (opt m2 obs2
                   (shift_left (default_action acfg) (duplicate_last acfg)
                      (fst (plan acfg opt m1 obs1 g)))
                   (generator (snd (plan acfg opt m1 obs1 g)))) \<and>
         (\<exists>evs. plan_log (agent_calls acfg opt cs g) = plan_log g @ evs \<and>
                warm_started acfg (previous_solution g) evs) \<and>
         fst (plan acfg opt m1 obs1 (trajectory_optimizer_reset g))
           = fst (opt m1 obs1 (replicate (planning_horizon acfg) (default_action acfg))
                   (generator g)) \<and>
         (\<exists>st tps. pets_example lib cfg cap e0 g0 m0 = Some (Inr st) \<and>
            plan_log (agent st) = plan_log g0 @ concat (map (\<lambda>ps. WarmStartCleared # ps) tps) \<and>
            length tps = num_trials cfg \<and>
            (\<forall>ps \<in> set tps. ps \<noteq> [] \<and> WarmStartCleared \<notin> set ps \<and>
                              warm_started acfg None ps))"
proof (intro conjI)
  from plan_effect [of opt m1 obs1 acfg g]
  obtain best gen where p1: "plan acfg opt m1 obs1 g =
       (best, g\<lparr>previous_solution := Some best, generator := gen,
                 plan_log := plan_log g @ [Planned (warm_start acfg (previous_solution g)) best]\<rparr>)"
    by blast
  then show "fst (plan acfg opt m2 obs2 (snd (plan acfg opt m1 obs1 g)))
           = fst (opt m2 obs2
                   (shift_left (default_action acfg) (duplicate_last acfg)
                      (fst (plan acfg opt m1 obs1 g)))
                   (generator (snd (plan acfg opt m1 obs1 g))))"
    by (simp add: plan_def [of acfg opt m2] warm_start_def Let_def split: prod.splits)
next
  show "\<exists>evs. plan_log (agent_calls acfg opt cs g) = plan_log g @ evs \<and>
                warm_started acfg (previous_solution g) evs"
    by (rule agent_calls_effect)
next
  show "fst (plan acfg opt m1 obs1 (trajectory_optimizer_reset g))
           = fst (opt m1 obs1 (replicate (planning_horizon acfg) (default_action acfg))
                   (generator g))"
    by (simp add: plan_def warm_start_def trajectory_optimizer_reset_def Let_def split: prod.splits)
next
  from pets_example_result [OF assms(3,4), of lib e0 g0 m0]
  obtain st tms where r: "pets_example lib cfg cap e0 g0 m0 = Some (Inr st)"
    "length tms = num_trials cfg" "\<forall>x \<in> set tms. snd x \<noteq> []"
    "agent st = agent_trials lib g0 tms"
    by (elim exE conjE) (rule that)
  from agent_trials_effect [OF assms(1,2) r(3), of g0]
  obtain tps where t: "plan_log (agent_trials lib g0 tms)
        = plan_log g0 @ concat (map (\<lambda>ps. WarmStartCleared # ps) tps)"
     "length tps = length tms"
     "\<forall>ps \<in> set tps. ps \<noteq> [] \<and> WarmStartCleared \<notin> set ps \<and> warm_started acfg None ps"
    by blast
  with r show "\<exists>st tps. pets_example lib cfg cap e0 g0 m0 = Some (Inr st) \<and>
            plan_log (agent st) = plan_log g0 @ concat (map (\<lambda>ps. WarmStartCleared # ps) tps) \<and>
            length tps = num_trials cfg \<and>
            (\<forall>ps \<in> set tps. ps \<noteq> [] \<and> WarmStartCleared \<notin> set ps \<and>
                              warm_started acfg None ps)"
    by (intro exI [of _ st] exI [of _ tps]) simp
qed

theorem warm_start_between_planning_calls_witness:
  "agent_act planning_library = trajectory_optimizer_act planning_config raise_mean \<and>
   agent_reset planning_library = trajectory_optimizer_reset \<and>
   0 < trial_length notebook_config \<and> (0::nat) < 1000 \<and>
   fst (plan planning_config raise_mean () () (snd (plan planning_config raise_mean () () fresh_agent)))
     = replicate 14 2 @ [1] \<and>
   (\<exists>st tps. pets_example planning_library notebook_config 1000 () fresh_agent () = Some (Inr st) \<and>
      plan_log (agent st) = plan_log fresh_agent @ concat (map (\<lambda>ps. WarmStartCleared # ps) tps) \<and>
      length tps = num_trials notebook_config \<and>
      (\<forall>ps \<in> set tps. ps \<noteq> [] \<and> WarmStartCleared \<notin> set ps \<and>
                        warm_started planning_config None ps))"
proof -
  have a: "agent_act planning_library = trajectory_optimizer_act planning_config raise_mean"
    and r: "agent_reset planning_library = trajectory_optimizer_reset"
    by (simp_all add: planning_library_def)
  have T: "0 < trial_length notebook_config" by (simp add: notebook_config_def)
  have c: "(0::nat) < 1000" by simp
  note w = warm_start_between_planning_calls [OF a r T c, of "()" "()" "()" "()" fresh_agent
      "[]" "()" fresh_agent "()"]
  have two: "fst (plan planning_config raise_mean () ()
        (snd (plan planning_config raise_mean () () fresh_agent))) = replicate 14 2 @ [1]"
    using w [THEN conjunct1]
    by (simp add: plan_def warm_start_def fresh_agent_def planning_config_def raise_mean_def
        numeral_eq_Suc)
  from a r T c two w [THEN conjunct2, THEN conjunct2, THEN conjunct2]
  show ?thesis by (intro conjI)
qed

end
